theory Spec2Isabelle
  imports Main "HOL-Library.Word"
begin

section \<open>JavaScript strings and values\<close>

text \<open>
  A JavaScript string is a sequence of 16-bit code units; \<open>length\<close> counts code units,
  as \<open>String.prototype.length\<close> and Joi's \<open>min\<close>/\<open>max\<close> do. \<open>js\<close> writes an
  ASCII literal of the source as such a string.
\<close>

type_synonym jschar = "16 word"
type_synonym jsstring = "jschar list"

definition js :: "string \<Rightarrow> jsstring" where
  "js s = map of_char s"

definition CR :: jschar where "CR = 13"
definition LF :: jschar where "LF = 10"
definition SP :: jschar where "SP = 32"

text \<open>
  The values a request body, a validated object or a fetched JSON document holds:
  what \<open>JSON.parse\<close> and the body parsers produce, and \<open>undefined\<close> (the value of a
  property that is not there). A number is carried by its decimal rendering, the only
  thing the code observes of it (through \<open>String(v)\<close> and truthiness). An object is a
  finite map from its own property names to values.
\<close>

datatype js_error = TypeError

datatype jsval =
    JUndefined
  | JNull
  | JBool bool
  | JNum jsstring
  | JStr jsstring
  | JArr "jsval list"
  | JObj "jsstring \<Rightarrow> jsval option"

text \<open>\<open>obj.k\<close> for a property name that \<open>Object.prototype\<close> does not define.\<close>

definition get_prop :: "(jsstring \<rightharpoonup> jsval) \<Rightarrow> jsstring \<Rightarrow> jsval" where
  "get_prop obj k = (case obj k of None \<Rightarrow> JUndefined | Some v \<Rightarrow> v)"

text \<open>\<open>v ?? ''\<close>: the empty string for \<open>undefined\<close> and \<open>null\<close> only.\<close>

fun nullish_empty :: "jsval \<Rightarrow> jsval" where
  "nullish_empty JUndefined = JStr []"
| "nullish_empty JNull = JStr []"
| "nullish_empty v = v"

fun join_comma :: "jsstring list \<Rightarrow> jsstring" where
  "join_comma [] = []"
| "join_comma [s] = s"
| "join_comma (s # t # ss) = s @ js '','' @ join_comma (t # ss)"

fun sequence :: "(js_error + 'a) list \<Rightarrow> js_error + 'a list" where
  "sequence [] = Inr []"
| "sequence (r # rs) =
     (case r of
        Inl e \<Rightarrow> Inl e
      | Inr x \<Rightarrow> (case sequence rs of Inl e \<Rightarrow> Inl e | Inr xs \<Rightarrow> Inr (x # xs)))"

text \<open>
  \<open>String(v)\<close>. An array is joined with commas, \<open>undefined\<close> and \<open>null\<close> elements
  rendering as nothing. A parsed object renders as \<open>[object Object]\<close> through
  \<open>Object.prototype.toString\<close>, unless it has an own property \<open>toString\<close>: a parsed
  value is never callable, the inherited \<open>valueOf\<close> returns the object itself, and the
  conversion throws a TypeError.
\<close>

fun js_String :: "jsval \<Rightarrow> js_error + jsstring" where
  "js_String JUndefined = Inr (js ''undefined'')"
| "js_String JNull = Inr (js ''null'')"
| "js_String (JBool b) = Inr (if b then js ''true'' else js ''false'')"
| "js_String (JNum r) = Inr r"
| "js_String (JStr s) = Inr s"
| "js_String (JArr xs) =
     (case sequence (map (\<lambda>x. case x of JUndefined \<Rightarrow> Inr [] | JNull \<Rightarrow> Inr []
                                   | _ \<Rightarrow> js_String x) xs) of
        Inl e \<Rightarrow> Inl e
      | Inr ss \<Rightarrow> Inr (join_comma ss))"
| "js_String (JObj m) =
     (if m (js ''toString'') = None then Inr (js ''[object Object]'') else Inl TypeError)"

text \<open>
  The code units \<open>String.prototype.trim\<close> strips: the WhiteSpace and LineTerminator
  productions of ECMAScript (TAB, LF, VT, FF, CR, SP, NBSP, U+1680, U+2000 to U+200A,
  U+2028, U+2029, U+202F, U+205F, U+3000, U+FEFF).
\<close>

definition is_ws :: "jschar \<Rightarrow> bool" where
  "is_ws c = (c \<in> set [9, 10, 11, 12, 13, 32, 160, 5760,
                        8192, 8193, 8194, 8195, 8196, 8197, 8198, 8199, 8200, 8201, 8202,
                        8232, 8233, 8239, 8287, 12288, 65279])"

definition js_trim :: "jsstring \<Rightarrow> jsstring" where
  "js_trim s = rev (dropWhile is_ws (rev (dropWhile is_ws s)))"

text \<open>A string with no whitespace at either end.\<close>

definition no_edge_ws :: "jsstring \<Rightarrow> bool" where
  "no_edge_ws s = (case s of [] \<Rightarrow> True | c # _ \<Rightarrow> \<not> is_ws c \<and> \<not> is_ws (last s))"

section \<open>validators.js: the sanitizer\<close>

text \<open>\<open>.replace(/[\r\n]/g, ' ')\<close> and \<open>.replace(/\r/g, '')\<close>.\<close>

definition replace_crlf_space :: "jsstring \<Rightarrow> jsstring" where
  "replace_crlf_space s = map (\<lambda>c. if c = CR \<or> c = LF then SP else c) s"

definition remove_cr :: "jsstring \<Rightarrow> jsstring" where
  "remove_cr s = filter (\<lambda>c. c \<noteq> CR) s"

text \<open>\<open>trimSafe(v) = String(v ?? '').replace(/[\r\n]/g, ' ').trim()\<close>\<close>

definition trimSafe :: "jsval \<Rightarrow> js_error + jsstring" where
  "trimSafe v =
     (case js_String (nullish_empty v) of
        Inl e \<Rightarrow> Inl e
      | Inr s \<Rightarrow> Inr (js_trim (replace_crlf_space s)))"

record clean =
  name :: jsstring
  email :: jsstring
  message :: jsstring

text \<open>
  \<open>sanitizeInput(obj)\<close>, for an object \<open>obj\<close>. The three fields are computed in the
  order of the source; the first conversion that throws ends the call.
\<close>

definition sanitizeInput :: "(jsstring \<rightharpoonup> jsval) \<Rightarrow> js_error + clean" where
  "sanitizeInput obj =
     (case trimSafe (get_prop obj (js ''name'')) of
        Inl e \<Rightarrow> Inl e
      | Inr n \<Rightarrow>
     (case trimSafe (get_prop obj (js ''email'')) of
        Inl e \<Rightarrow> Inl e
      | Inr m \<Rightarrow>
     (case js_String (nullish_empty (get_prop obj (js ''message''))) of
        Inl e \<Rightarrow> Inl e
      | Inr t \<Rightarrow> Inr \<lparr>name = n, email = m, message = js_trim (remove_cr t)\<rparr>)))"

text \<open>The object \<open>{ name, email, message }\<close> that \<open>sanitizeInput\<close> returns, as a value.\<close>

definition clean_obj :: "clean \<Rightarrow> (jsstring \<rightharpoonup> jsval)" where
  "clean_obj c = [js ''name'' \<mapsto> JStr (name c), js ''email'' \<mapsto> JStr (email c),
                  js ''message'' \<mapsto> JStr (message c)]"

text \<open>
  The values \<open>String\<close> can render: every value but an object with an own property
  \<open>toString\<close>, and an array that holds such an object (at any depth of arrays).
\<close>

fun renderable :: "jsval \<Rightarrow> bool" where
  "renderable (JArr xs) = list_all renderable xs"
| "renderable (JObj m) = (m (js ''toString'') = None)"
| "renderable v = True"

section \<open>validators.js: the schema\<close>

text \<open>
  \<open>contactSchema\<close> is a Joi object schema of three required strings. Joi is a
  dependency; the model writes out what its string type does with the rules this schema
  uses, under the options of the call (\<open>abortEarly: false\<close>, \<open>stripUnknown: true\<close>):
  a missing key is \<open>any.required\<close>, a value that is not a string is \<open>string.base\<close>,
  the empty string is \<open>string.empty\<close> (no rule of this schema is \<open>min(0)\<close>), and on any
  other string every rule is checked and every failure reported.
\<close>

datatype violation =
    AnyRequired
  | StringBase
  | StringEmpty
  | StringMin nat
  | StringMax nat
  | StringEmail

datatype rule = MinLen nat | MaxLen nat | EmailRule

text \<open>
  The address grammar of \<open>Joi.string().email({ tlds: { allow: false } })\<close>. Of it the
  model fixes that an address has exactly one \<open>@\<close> (Joi splits the string at \<open>@\<close> and
  wants two parts); the rest of the grammar is the parameter \<open>g\<close>.
\<close>

definition at_sign :: jschar where "at_sign = 64"

definition email_ok :: "(jsstring \<Rightarrow> bool) \<Rightarrow> jsstring \<Rightarrow> bool" where
  "email_ok g s = (length (filter (\<lambda>c. c = at_sign) s) = 1 \<and> g s)"

fun check_rule :: "(jsstring \<Rightarrow> bool) \<Rightarrow> jsstring \<Rightarrow> rule \<Rightarrow> violation option" where
  "check_rule g s (MinLen n) = (if length s < n then Some (StringMin n) else None)"
| "check_rule g s (MaxLen n) = (if n < length s then Some (StringMax n) else None)"
| "check_rule g s EmailRule = (if email_ok g s then None else Some StringEmail)"

fun joi_string :: "(jsstring \<Rightarrow> bool) \<Rightarrow> rule list \<Rightarrow> jsval \<Rightarrow> violation list" where
  "joi_string g rules JUndefined = [AnyRequired]"
| "joi_string g rules (JStr s) =
     (if s = [] then [StringEmpty] else List.map_filter (check_rule g s) rules)"
| "joi_string g rules v = [StringBase]"

definition contactSchema :: "(jsstring \<times> rule list) list" where
  "contactSchema =
     [(js ''name'', [MinLen 1, MaxLen 120]),
      (js ''email'', [EmailRule]),
      (js ''message'', [MinLen 1, MaxLen 5000])]"

text \<open>
  One entry of \<open>error.details\<close>: Joi's message (determined by the violation and the key)
  and the path to the key.
\<close>

record detail =
  d_message :: violation
  d_path :: "jsstring list"

definition key_details ::
  "(jsstring \<Rightarrow> bool) \<Rightarrow> (jsstring \<rightharpoonup> jsval) \<Rightarrow> jsstring \<times> rule list \<Rightarrow> detail list" where
  "key_details g obj kr =
     map (\<lambda>v. \<lparr>d_message = v, d_path = [fst kr]\<rparr>) (joi_string g (snd kr) (get_prop obj (fst kr)))"

text \<open>
  \<open>schema.validate(body, { abortEarly: false, stripUnknown: true })\<close>, for a body that
  is an object or \<open>undefined\<close> (no body was parsed). The object schema is not
  \<open>required()\<close>, so \<open>undefined\<close> passes, as \<open>undefined\<close>. The keys are checked in the
  order of the schema; the validated value keeps the keys of the schema only.
\<close>

datatype validation = Invalid "detail list" | Valid "(jsstring \<rightharpoonup> jsval) option"

definition validate ::
  "(jsstring \<Rightarrow> bool) \<Rightarrow> (jsstring \<times> rule list) list \<Rightarrow> (jsstring \<rightharpoonup> jsval) option
   \<Rightarrow> validation" where
  "validate g schema body =
     (case body of
        None \<Rightarrow> Valid None
      | Some obj \<Rightarrow>
          (let ds = concat (map (key_details g obj) schema)
           in if ds = [] then Valid (Some (obj |` set (map fst schema))) else Invalid ds))"

section \<open>rateLimit.js\<close>

text \<open>
  The environment variables the service reads. A numeric variable is given by the
  number it holds (\<open>None\<close>: unset or empty, so that \<open>||\<close> takes the default).
\<close>

record env =
  RATE_LIMIT_POINTS :: "nat option"
  RATE_LIMIT_DURATION :: "nat option"
  TRUST_PROXY :: "jsstring option"
  REACT_APP_TRUST_PROXY :: "jsstring option"
  HONEYPOT_FIELD :: "jsstring option"

definition points :: "env \<Rightarrow> nat" where
  "points e = (case RATE_LIMIT_POINTS e of None \<Rightarrow> 5 | Some n \<Rightarrow> n)"

definition duration :: "env \<Rightarrow> nat" where
  "duration e = (case RATE_LIMIT_DURATION e of None \<Rightarrow> 60 | Some n \<Rightarrow> n)"

text \<open>
  Modelled from the spec: \<open>RateLimiterMemory\<close> of the package rate-limiter-flexible is
  not under src/. Fixed-window counting: each key has a counter and the time its window
  ends; the window starts on the key's first call and lasts \<open>duration\<close> seconds; every
  call adds one to the counter, a call at or after the end of the window starts a new
  window with the counter at one; the call is allowed while the counter does not exceed
  \<open>points\<close>. Times are in milliseconds. A duration of zero never expires (the author's
  documentation of the package).
\<close>

record rl_entry =
  consumedPoints :: nat
  expiresAt :: "nat option"

type_synonym limiter = "jsstring \<rightharpoonup> rl_entry"

definition live_entry :: "limiter \<Rightarrow> jsstring \<Rightarrow> nat \<Rightarrow> rl_entry option" where
  "live_entry st key now =
     (case st key of
        None \<Rightarrow> None
      | Some e \<Rightarrow>
          (case expiresAt e of
             None \<Rightarrow> Some e
           | Some t \<Rightarrow> if now < t then Some e else None))"

definition consume :: "nat \<Rightarrow> nat \<Rightarrow> nat \<Rightarrow> limiter \<Rightarrow> jsstring \<Rightarrow> bool \<times> limiter" where
  "consume pts dur now st key =
     (let e = (case live_entry st key now of
                 Some e \<Rightarrow> e\<lparr>consumedPoints := consumedPoints e + 1\<rparr>
               | None \<Rightarrow> \<lparr>consumedPoints = 1,
                           expiresAt = (if 0 < dur then Some (now + dur * 1000) else None)\<rparr>)
      in (consumedPoints e \<le> pts, st(key \<mapsto> e)))"

text \<open>
  A request, as far as the route reads it: the \<open>X-Forwarded-For\<close> header, the address
  of the connection (\<open>undefined\<close> once the socket is gone) and the parsed body.
\<close>

record request =
  xff :: "jsstring option"
  remoteAddress :: "jsstring option"
  body :: "(jsstring \<rightharpoonup> jsval) option"

text \<open>
  \<open>createApp\<close>:
  \<open>trustProxy = String(TRUST_PROXY || REACT_APP_TRUST_PROXY || '1') === '1'\<close>,
  and \<open>app.set('trust proxy', 1)\<close> when it holds.
\<close>

definition or_else :: "jsstring option \<Rightarrow> jsstring \<Rightarrow> jsstring" where
  "or_else a d = (case a of None \<Rightarrow> d | Some s \<Rightarrow> if s = [] then d else s)"

definition trustProxy :: "env \<Rightarrow> bool" where
  "trustProxy e = (or_else (TRUST_PROXY e) (or_else (REACT_APP_TRUST_PROXY e) (js ''1'')) = js ''1'')"

text \<open>
  Express's \<open>req.ip\<close> (packages proxy-addr and forwarded, dependencies). The header is
  split at commas, each entry stripped of spaces at both ends, empty entries dropped;
  the entries are listed from the last to the first. With \<open>trust proxy\<close> set to one hop,
  \<open>req.ip\<close> is the last entry of the header, or the address of the connection when the
  header has none; without it, \<open>req.ip\<close> is the address of the connection.
\<close>

definition comma :: jschar where "comma = 44"

fun split_commas :: "jsstring \<Rightarrow> jsstring list" where
  "split_commas [] = [[]]"
| "split_commas (c # cs) =
     (if c = comma then [] # split_commas cs
      else (case split_commas cs of [] \<Rightarrow> [[c]] | w # ws \<Rightarrow> (c # w) # ws))"

definition strip_spaces :: "jsstring \<Rightarrow> jsstring" where
  "strip_spaces s = rev (dropWhile (\<lambda>c. c = SP) (rev (dropWhile (\<lambda>c. c = SP) s)))"

definition forwarded_parse :: "jsstring \<Rightarrow> jsstring list" where
  "forwarded_parse h = rev (filter (\<lambda>w. w \<noteq> []) (map strip_spaces (split_commas h)))"

definition req_ip :: "bool \<Rightarrow> request \<Rightarrow> jsstring option" where
  "req_ip trust req =
     (if trust then
        (case forwarded_parse (or_else (xff req) []) of
           [] \<Rightarrow> remoteAddress req
         | a # _ \<Rightarrow> Some a)
      else remoteAddress req)"

text \<open>
  \<open>key = req.ip || req.headers['x-forwarded-for'] || req.connection?.remoteAddress || 'global'\<close>
\<close>

definition client_key :: "bool \<Rightarrow> request \<Rightarrow> jsstring" where
  "client_key trust req =
     or_else (req_ip trust req) (or_else (xff req) (or_else (remoteAddress req) (js ''global'')))"

section \<open>server.js: POST /contact\<close>

datatype resp_body =
    SuccessBody jsval
  | ValidationErrorBody "detail list"
  | ErrorBody jsstring

record response =
  status :: nat
  json :: resp_body

text \<open>
  What handling a request did: the response written (\<open>None\<close> when the handler threw
  before writing one) and the payloads \<open>sendContactEmail\<close> was called with, in order.
\<close>

record outcome =
  response :: "response option"
  sink_calls :: "clean list"

text \<open>
  \<open>rateLimiterMiddleware\<close>: \<open>inner\<close> is what \<open>next()\<close> runs. A rejected \<open>consume\<close>
  is answered 429 and \<open>next\<close> is not called.
\<close>

definition rateLimiterMiddleware ::
  "env \<Rightarrow> limiter \<Rightarrow> nat \<Rightarrow> request \<Rightarrow> outcome \<Rightarrow> outcome \<times> limiter" where
  "rateLimiterMiddleware e st now req inner =
     (case consume (points e) (duration e) now st (client_key (trustProxy e) req) of
        (True, st') \<Rightarrow> (inner, st')
      | (False, st') \<Rightarrow>
          (\<lparr>response = Some \<lparr>status = 429, json = ErrorBody (js ''rate_limited'')\<rparr>,
            sink_calls = []\<rparr>, st'))"

text \<open>
  Calls through the middleware, one after the other on one limiter: each has its time,
  its request and the outcome \<open>next()\<close> would have. The result is the outcome of each
  call and the limiter after the last.
\<close>

definition rate_limited :: outcome where
  "rate_limited = \<lparr>response = Some \<lparr>status = 429, json = ErrorBody (js ''rate_limited'')\<rparr>,
                    sink_calls = []\<rparr>"

fun middleware_seq ::
  "env \<Rightarrow> limiter \<Rightarrow> (nat \<times> request \<times> outcome) list \<Rightarrow> outcome list \<times> limiter" where
  "middleware_seq e st [] = ([], st)"
| "middleware_seq e st ((now, req, inner) # cs) =
     (case rateLimiterMiddleware e st now req inner of
        (out, st') \<Rightarrow>
          (case middleware_seq e st' cs of (outs, st'') \<Rightarrow> (out # outs, st'')))"

text \<open>
  \<open>honeypotField = process.env.HONEYPOT_FIELD || 'website'\<close> and the check
  \<open>typeof req.body?.[honeypotField] !== 'undefined' && String(req.body[honeypotField]).trim() !== ''\<close>.
  A name that a body parsed from JSON does not have of its own may still be a member of
  \<open>Object.prototype\<close>: it reads as a built-in function (or, for \<open>__proto__\<close>, as the
  prototype), whose rendering is not blank.
\<close>

definition honeypotField :: "env \<Rightarrow> jsstring" where
  "honeypotField e = or_else (HONEYPOT_FIELD e) (js ''website'')"

definition object_prototype_keys :: "jsstring list" where
  "object_prototype_keys =
     [js ''constructor'', js ''__defineGetter__'', js ''__defineSetter__'',
      js ''hasOwnProperty'', js ''__lookupGetter__'', js ''__lookupSetter__'',
      js ''isPrototypeOf'', js ''propertyIsEnumerable'', js ''toString'', js ''valueOf'',
      js ''__proto__'', js ''toLocaleString'']"

definition honeypot_triggered :: "jsstring \<Rightarrow> (jsstring \<rightharpoonup> jsval) option \<Rightarrow> js_error + bool" where
  "honeypot_triggered hp b =
     (case b of
        None \<Rightarrow> Inr False
      | Some obj \<Rightarrow>
          (case obj hp of
             None \<Rightarrow> Inr (hp \<in> set object_prototype_keys)
           | Some JUndefined \<Rightarrow> Inr False
           | Some v \<Rightarrow>
               (case js_String v of Inl e \<Rightarrow> Inl e | Inr s \<Rightarrow> Inr (js_trim s \<noteq> []))))"

text \<open>
  Modelled from the spec: \<open>sendContactEmail\<close> (email.js) is not under src/. The sink is
  asynchronous and may fail: a call resolves with a result or rejects with an error, of
  which the handler reads only \<open>err?.message\<close>. In simulate mode (no channel configured)
  it reports success without sending, and its result carries no identifier.
\<close>

datatype sink_result = Resolved jsval | Rejected "jsstring option"

definition simulate_sink :: "clean \<Rightarrow> sink_result" where
  "simulate_sink payload = Resolved (JObj Map.empty)"

text \<open>Truthiness, \<open>r?.k\<close> and \<open>a || b\<close> on values.\<close>

fun js_truthy :: "jsval \<Rightarrow> bool" where
  "js_truthy JUndefined = False"
| "js_truthy JNull = False"
| "js_truthy (JBool b) = b"
| "js_truthy (JNum r) = (r \<noteq> js ''0'' \<and> r \<noteq> js ''NaN'')"
| "js_truthy (JStr s) = (s \<noteq> [])"
| "js_truthy (JArr xs) = True"
| "js_truthy (JObj m) = True"

fun opt_member :: "jsval \<Rightarrow> jsstring \<Rightarrow> jsval" where
  "opt_member (JObj m) k = get_prop m k"
| "opt_member v k = JUndefined"

definition js_or :: "jsval \<Rightarrow> jsval \<Rightarrow> jsval" where
  "js_or a b = (if js_truthy a then a else b)"

text \<open>\<open>sendResult?.messageId || sendResult?.id || null\<close>\<close>

definition result_id :: "jsval \<Rightarrow> jsval" where
  "result_id r = js_or (opt_member r (js ''messageId'')) (js_or (opt_member r (js ''id'')) JNull)"

text \<open>
  The handler of \<open>POST /contact\<close>, after the middleware: honeypot, validation of the raw
  body, sanitizing of the validated value, one call of the sink.
  \<open>sanitizeInput(undefined)\<close> throws on \<open>obj.name\<close>.
\<close>

definition contact_handler ::
  "env \<Rightarrow> (jsstring \<Rightarrow> bool) \<Rightarrow> (clean \<Rightarrow> sink_result) \<Rightarrow> request \<Rightarrow> outcome" where
  "contact_handler e g sendContactEmail req =
     (case honeypot_triggered (honeypotField e) (body req) of
        Inl err \<Rightarrow> \<lparr>response = None, sink_calls = []\<rparr>
      | Inr True \<Rightarrow>
          \<lparr>response = Some \<lparr>status = 202, json = SuccessBody JNull\<rparr>, sink_calls = []\<rparr>
      | Inr False \<Rightarrow>
          (case validate g contactSchema (body req) of
             Invalid ds \<Rightarrow>
               \<lparr>response = Some \<lparr>status = 400, json = ValidationErrorBody ds\<rparr>, sink_calls = []\<rparr>
           | Valid None \<Rightarrow> \<lparr>response = None, sink_calls = []\<rparr>
           | Valid (Some v) \<Rightarrow>
               (case sanitizeInput v of
                  Inl err \<Rightarrow> \<lparr>response = None, sink_calls = []\<rparr>
                | Inr payload \<Rightarrow>
                    (case sendContactEmail payload of
                       Resolved r \<Rightarrow>
                         \<lparr>response = Some \<lparr>status = 202, json = SuccessBody (result_id r)\<rparr>,
                          sink_calls = [payload]\<rparr>
                     | Rejected err \<Rightarrow>
                         \<lparr>response = Some \<lparr>status = 500, json = ErrorBody (js ''send_failed'')\<rparr>,
                          sink_calls = [payload]\<rparr>))))"

text \<open>\<open>app.post('/contact', rateLimiterMiddleware, handler)\<close>\<close>

definition contact_route ::
  "env \<Rightarrow> (jsstring \<Rightarrow> bool) \<Rightarrow> (clean \<Rightarrow> sink_result) \<Rightarrow> limiter \<Rightarrow> nat \<Rightarrow> request
   \<Rightarrow> outcome \<times> limiter" where
  "contact_route e g sendContactEmail st now req =
     rateLimiterMiddleware e st now req (contact_handler e g sendContactEmail req)"

text \<open>Requests served one after the other, each at its time, on one limiter.\<close>

fun serve ::
  "env \<Rightarrow> (jsstring \<Rightarrow> bool) \<Rightarrow> (clean \<Rightarrow> sink_result) \<Rightarrow> limiter \<Rightarrow> (nat \<times> request) list
   \<Rightarrow> outcome list" where
  "serve e g sendContactEmail st [] = []"
| "serve e g sendContactEmail st ((now, req) # rs) =
     (case contact_route e g sendContactEmail st now req of
        (out, st') \<Rightarrow> out # serve e g sendContactEmail st' rs)"

text \<open>
  The constraints of the schema in words, for one field: \<open>name\<close> is a string of 1 to
  120 code units, \<open>email\<close> is a string that matches the address grammar, \<open>message\<close> is
  a string of 1 to 5000 code units.
\<close>

fun name_ok :: "jsval \<Rightarrow> bool" where
  "name_ok (JStr s) = (1 \<le> length s \<and> length s \<le> 120)"
| "name_ok v = False"

fun address_ok :: "(jsstring \<Rightarrow> bool) \<Rightarrow> jsval \<Rightarrow> bool" where
  "address_ok g (JStr s) = email_ok g s"
| "address_ok g v = False"

fun message_ok :: "jsval \<Rightarrow> bool" where
  "message_ok (JStr s) = (1 \<le> length s \<and> length s \<le> 5000)"
| "message_ok v = False"

definition field_ok :: "(jsstring \<Rightarrow> bool) \<Rightarrow> (jsstring \<rightharpoonup> jsval) \<Rightarrow> jsstring \<Rightarrow> bool" where
  "field_ok g obj k =
     (if k = js ''name'' then name_ok (get_prop obj k)
      else if k = js ''email'' then address_ok g (get_prop obj k)
      else if k = js ''message'' then message_ok (get_prop obj k)
      else True)"

text \<open>
  For the examples: an environment with no variable set, and a grammar parameter that
  asks nothing beyond the single \<open>@\<close>.
\<close>

definition env_unset :: env where
  "env_unset = \<lparr>RATE_LIMIT_POINTS = None, RATE_LIMIT_DURATION = None, TRUST_PROXY = None,
                 REACT_APP_TRUST_PROXY = None, HONEYPOT_FIELD = None\<rparr>"

definition lenient :: "jsstring \<Rightarrow> bool" where
  "lenient s = True"

text \<open>
  Two requests from one address: the submission of the spec's scenario, and one that
  fills the honeypot field \<open>website\<close>.
\<close>

definition jane :: request where
  "jane = \<lparr>xff = None, remoteAddress = Some (js ''203.0.113.7''),
            body = Some [js ''name'' \<mapsto> JStr (js ''Jane''),
                         js ''email'' \<mapsto> JStr (js ''jane@example.com''),
                         js ''message'' \<mapsto> JStr (js ''Hello!'')]\<rparr>"

definition jane_payload :: clean where
  "jane_payload = \<lparr>name = js ''Jane'', email = js ''jane@example.com'', message = js ''Hello!''\<rparr>"

definition jane_outcome :: outcome where
  "jane_outcome = \<lparr>response = Some \<lparr>status = 202, json = SuccessBody JNull\<rparr>,
                    sink_calls = [jane_payload]\<rparr>"

definition bot :: request where
  "bot = \<lparr>xff = None, remoteAddress = Some (js ''203.0.113.7''),
           body = Some [js ''name'' \<mapsto> JStr (js ''Jane''),
                        js ''email'' \<mapsto> JStr (js ''jane@example.com''),
                        js ''message'' \<mapsto> JStr (js ''Hello!''),
                        js ''website'' \<mapsto> JStr (js ''http://spam.example'')]\<rparr>"

text \<open>Whether the limiter lets a request through to the handler.\<close>

definition admitted :: "env \<Rightarrow> limiter \<Rightarrow> nat \<Rightarrow> request \<Rightarrow> bool" where
  "admitted e st now req =
     fst (consume (points e) (duration e) now st (client_key (trustProxy e) req))"

section \<open>The site's contact client: sendContactMessage\<close>

text \<open>
  What \<open>fetch\<close> can do with the request: reject (a network error; of the error the code
  reads \<open>err?.message\<close>), or fulfil with a response, of which the code reads the status,
  the \<open>content-type\<close> header and the body, through \<open>resp.json()\<close> or \<open>resp.text()\<close>
  (\<open>None\<close>: the read rejects).
\<close>

record fetch_response =
  resp_status :: nat
  content_type :: "jsstring option"
  json_result :: "jsval option"
  text_result :: "jsstring option"

datatype fetch_outcome = Fulfilled fetch_response | Failed "jsstring option"

text \<open>The object the function returns: \<open>{ ok, error?, data? }\<close>.\<close>

record contact_result =
  ok :: bool
  error :: "jsstring option"
  data :: "jsval option"

text \<open>
  A thrown value, by its \<open>message\<close> (\<open>None\<close>: it has none). The text of the
  TypeError that \<open>String\<close> throws is the engine's; V8's is taken.
\<close>

datatype thrown = Thrown "jsstring option"

definition conversion_error :: "js_error \<Rightarrow> thrown" where
  "conversion_error err = Thrown (Some (js ''Cannot convert object to primitive value''))"

definition config_error :: jsstring where
  "config_error = js ''REACT_APP_CONTACT_API_URL is not set. Please configure it in your .env file.''"

definition slash :: jschar where "slash = 47"

text \<open>\<open>`${base.replace(/\/+$/, '')}/api/contact/`\<close>\<close>

definition contact_url :: "jsstring \<Rightarrow> jsstring" where
  "contact_url base = rev (dropWhile (\<lambda>c. c = slash) (rev base)) @ js ''/api/contact/''"

text \<open>\<open>haystack.includes(needle)\<close>\<close>

fun starts_with :: "jsstring \<Rightarrow> jsstring \<Rightarrow> bool" where
  "starts_with s [] = True"
| "starts_with [] (c # cs) = False"
| "starts_with (d # ds) (c # cs) = (d = c \<and> starts_with ds cs)"

fun js_includes :: "jsstring \<Rightarrow> jsstring \<Rightarrow> bool" where
  "js_includes [] needle = (needle = [])"
| "js_includes (c # cs) needle = (starts_with (c # cs) needle \<or> js_includes cs needle)"

text \<open>The decimal rendering of a status code, for the template literal.\<close>

fun decimal :: "nat \<Rightarrow> jsstring" where
  "decimal n = (if n < 10 then [of_nat (48 + n)] else decimal (n div 10) @ [of_nat (48 + n mod 10)])"

text \<open>
  The body the response carries, as the code reads it: \<open>resp.json().catch(() => null)\<close>
  when the content type includes \<open>application/json\<close>, otherwise
  \<open>resp.text().catch(() => "")\<close>, with the empty text replaced by \<open>null\<close>.
\<close>

definition read_data :: "fetch_response \<Rightarrow> jsval" where
  "read_data resp =
     (if js_includes (or_else (content_type resp) []) (js ''application/json'')
      then (case json_result resp of None \<Rightarrow> JNull | Some v \<Rightarrow> v)
      else (case text_result resp of
              None \<Rightarrow> JNull
            | Some s \<Rightarrow> if s = [] then JNull else JStr s))"

text \<open>
  \<open>(data && (data.error || data.detail || data.message)) || `Request failed with status ${resp.status}`\<close>
\<close>

definition failure_message :: "jsval \<Rightarrow> nat \<Rightarrow> jsval" where
  "failure_message d st =
     js_or (if js_truthy d
            then js_or (opt_member d (js ''error''))
                   (js_or (opt_member d (js ''detail'')) (opt_member d (js ''message'')))
            else d)
       (JStr (js ''Request failed with status '' @ decimal st))"

text \<open>
  The \<open>try\<close> block, given how \<open>fetch\<close> settles: a rejected \<open>fetch\<close> throws
  its error, and \<open>String(msg)\<close> can throw. (\<open>JSON.stringify\<close> does not throw on
  values of the kind modelled here.)
\<close>

definition try_block :: "fetch_outcome \<Rightarrow> thrown + contact_result" where
  "try_block outc =
     (case outc of
        Failed m \<Rightarrow> Inl (Thrown m)
      | Fulfilled resp \<Rightarrow>
          (let d = read_data resp
           in if \<not> (200 \<le> resp_status resp \<and> resp_status resp \<le> 299)
              then (case js_String (failure_message d (resp_status resp)) of
                      Inl err \<Rightarrow> Inl (conversion_error err)
                    | Inr s \<Rightarrow> Inr \<lparr>ok = False, error = Some s, data = Some d\<rparr>)
              else Inr \<lparr>ok = True, error = None, data = Some d\<rparr>))"

text \<open>\<open>catch (err) { return { ok: false, error: err?.message || "Network error" }; }\<close>\<close>

fun catch_block :: "thrown \<Rightarrow> contact_result" where
  "catch_block (Thrown m) = \<lparr>ok = False, error = Some (or_else m (js ''Network error'')), data = None\<rparr>"

text \<open>
  The parameter \<open>{ name, email, subject, message }\<close>: binding it reads the four
  properties of the argument, and throws a TypeError when the argument is \<open>undefined\<close>
  (also: no argument) or \<open>null\<close>. It is bound before the body runs, outside the
  \<open>try\<close> block. The text of the error is the engine's (abridged here).
\<close>

definition destructure_error :: thrown where
  "destructure_error = Thrown (Some (js ''Cannot destructure property name of the argument''))"

fun destructure :: "jsval \<Rightarrow> thrown + jsval \<times> jsval \<times> jsval \<times> jsval" where
  "destructure JUndefined = Inl destructure_error"
| "destructure JNull = Inl destructure_error"
| "destructure arg =
     Inr (opt_member arg (js ''name''), opt_member arg (js ''email''),
          opt_member arg (js ''subject''), opt_member arg (js ''message''))"

text \<open>
  \<open>sendContactMessage(arg)\<close>. \<open>base\<close> is \<open>process.env.REACT_APP_CONTACT_API_URL\<close>;
  \<open>net\<close> is the network: what \<open>fetch\<close> does with a URL and the four fields posted as
  JSON. The result is the settlement of the promise (\<open>Inl\<close>: it rejects) and the URLs
  fetched.
\<close>

definition sendContactMessage ::
  "jsstring option \<Rightarrow> (jsstring \<Rightarrow> jsval \<times> jsval \<times> jsval \<times> jsval \<Rightarrow> fetch_outcome)
   \<Rightarrow> jsval \<Rightarrow> (thrown + contact_result) \<times> jsstring list" where
  "sendContactMessage base net arg =
     (case destructure arg of
        Inl err \<Rightarrow> (Inl err, [])
      | Inr form \<Rightarrow>
          (if or_else base [] = [] then
             (Inr \<lparr>ok = False, error = Some config_error, data = None\<rparr>, [])
           else
             (let url = contact_url (or_else base [])
              in (case try_block (net url form) of
                    Inl err \<Rightarrow> Inr (catch_block err)
                  | Inr r \<Rightarrow> Inr r,
                  [url]))))"

text \<open>For the examples: a network on which every \<open>fetch\<close> fails.\<close>

definition offline :: "jsstring \<Rightarrow> jsval \<times> jsval \<times> jsval \<times> jsval \<Rightarrow> fetch_outcome" where
  "offline url form = Failed None"


section \<open>Properties of the sanitizer\<close>

lemma set_js_trim: "set (js_trim s) \<subseteq> set s"
proof -
  have "set (dropWhile is_ws (rev (dropWhile is_ws s))) \<subseteq> set (rev (dropWhile is_ws s))"
    by (meson set_dropWhileD subsetI)
  also have "\<dots> \<subseteq> set s"
    using set_dropWhileD [of _ is_ws s] by auto
  finally show ?thesis by (simp add: js_trim_def)
qed

lemma js_trim_no_edge_ws: "no_edge_ws (js_trim s)"
proof (cases "js_trim s")
  case Nil
  then show ?thesis by (simp add: no_edge_ws_def)
next
  case (Cons c cs)
  define ys where "ys = dropWhile is_ws s"
  define zs where "zs = dropWhile is_ws (rev ys)"
  have t: "js_trim s = rev zs" by (simp add: js_trim_def ys_def zs_def)
  with Cons have zs_ne: "zs \<noteq> []" by auto
  then have "\<not> is_ws (hd zs)" unfolding zs_def by (rule hd_dropWhile)
  moreover have "last (js_trim s) = hd zs" using zs_ne by (simp add: t last_rev)
  ultimately have l: "\<not> is_ws (last (js_trim s))" by simp
  have "rev ys = takeWhile is_ws (rev ys) @ zs" by (simp add: zs_def)
  then have "ys = rev zs @ rev (takeWhile is_ws (rev ys))"
    by (metis rev_append rev_rev_ident)
  then have ys: "ys = js_trim s @ rev (takeWhile is_ws (rev ys))" by (simp add: t)
  then have "ys \<noteq> []" using Cons by auto
  then have "\<not> is_ws (hd ys)" unfolding ys_def by (rule hd_dropWhile)
  moreover have "hd ys = c" using ys Cons by (metis hd_append2 list.distinct(1) list.sel(1))
  ultimately have "\<not> is_ws c" by simp
  with l Cons show ?thesis by (simp add: no_edge_ws_def)
qed

lemma js_trim_fixed: "no_edge_ws s \<Longrightarrow> js_trim s = s"
proof (cases s)
  case Nil
  then show ?thesis by (simp add: js_trim_def)
next
  case (Cons c cs)
  assume "no_edge_ws s"
  with Cons have c: "\<not> is_ws c" and l: "\<not> is_ws (last s)" by (simp_all add: no_edge_ws_def)
  from c Cons have d: "dropWhile is_ws s = s" by simp
  have "rev s \<noteq> []" using Cons by simp
  then obtain x xs where r: "rev s = x # xs" by (cases "rev s") auto
  have "hd (rev s) = last s" using Cons by (simp add: hd_rev)
  with r l have "\<not> is_ws x" by simp
  with r have "dropWhile is_ws (rev s) = rev s" by simp
  with d show ?thesis by (simp add: js_trim_def)
qed

lemma js_trim_idem: "js_trim (js_trim s) = js_trim s"
  by (rule js_trim_fixed) (rule js_trim_no_edge_ws)

lemma replace_crlf_space_free: "CR \<notin> set (replace_crlf_space s) \<and> LF \<notin> set (replace_crlf_space s)"
  by (auto simp: replace_crlf_space_def CR_def LF_def SP_def)

lemma replace_crlf_space_fixed: "CR \<notin> set s \<Longrightarrow> LF \<notin> set s \<Longrightarrow> replace_crlf_space s = s"
  by (induction s) (auto simp: replace_crlf_space_def)

lemma remove_cr_free: "CR \<notin> set (remove_cr s)"
  by (simp add: remove_cr_def)

lemma remove_cr_fixed: "CR \<notin> set s \<Longrightarrow> remove_cr s = s"
  by (induction s) (auto simp: remove_cr_def)

lemma trimSafe_shape:
  assumes "trimSafe v = Inr s"
  shows "no_edge_ws s \<and> CR \<notin> set s \<and> LF \<notin> set s"
proof -
  from assms obtain r where s: "s = js_trim (replace_crlf_space r)"
    by (auto simp: trimSafe_def split: sum.splits)
  have "set s \<subseteq> set (replace_crlf_space r)" unfolding s by (rule set_js_trim)
  with replace_crlf_space_free [of r] have "CR \<notin> set s \<and> LF \<notin> set s" by blast
  moreover have "no_edge_ws s" unfolding s by (rule js_trim_no_edge_ws)
  ultimately show ?thesis by simp
qed

lemma trimSafe_fixed:
  assumes "no_edge_ws s" "CR \<notin> set s" "LF \<notin> set s"
  shows "trimSafe (JStr s) = Inr s"
  using assms by (simp add: trimSafe_def replace_crlf_space_fixed js_trim_fixed)

lemma message_shape: "no_edge_ws (js_trim (remove_cr t)) \<and> CR \<notin> set (js_trim (remove_cr t))"
  using set_js_trim [of "remove_cr t"] remove_cr_free [of t] js_trim_no_edge_ws [of "remove_cr t"]
  by blast

lemma sequence_Inr_iff: "(\<exists>ys. sequence rs = Inr ys) \<longleftrightarrow> (\<forall>r\<in>set rs. \<exists>y. r = Inr y)"
proof (induction rs)
  case Nil
  then show ?case by simp
next
  case (Cons r rs)
  show ?case
  proof (cases r)
    case (Inl e)
    then show ?thesis by auto
  next
    case (Inr y)
    show ?thesis
    proof (cases "sequence rs")
      case (Inl e)
      with Cons Inr show ?thesis by auto
    next
      case (Inr ys)
      with Cons \<open>r = Inr y\<close> show ?thesis by auto
    qed
  qed
qed

lemma renderable_iff: "(\<exists>s. js_String v = Inr s) \<longleftrightarrow> renderable v"
proof (induction v)
  case (JArr xs)
  let ?f = "\<lambda>x. case x of JUndefined \<Rightarrow> Inr [] | JNull \<Rightarrow> Inr [] | _ \<Rightarrow> js_String x"
  have el: "(\<exists>y. ?f x = Inr y) \<longleftrightarrow> renderable x" if "x \<in> set xs" for x
    using JArr [OF that] by (cases x) simp_all
  have "(\<exists>s. js_String (JArr xs) = Inr s) \<longleftrightarrow> (\<exists>ys. sequence (map ?f xs) = Inr ys)"
    by (cases "sequence (map ?f xs)") simp_all
  also have "\<dots> \<longleftrightarrow> (\<forall>x\<in>set xs. \<exists>y. ?f x = Inr y)"
    unfolding sequence_Inr_iff by simp
  also have "\<dots> \<longleftrightarrow> (\<forall>x\<in>set xs. renderable x)"
    using el by blast
  finally show ?case by (simp add: list_all_iff)
qed simp_all

lemma renderable_String: "(\<exists>s. js_String (nullish_empty v) = Inr s) \<longleftrightarrow> renderable v"
  using renderable_iff [of v] by (cases v) simp_all

lemma renderable_trimSafe: "(\<exists>s. trimSafe v = Inr s) \<longleftrightarrow> renderable v"
  using renderable_String [of v]
  by (cases "js_String (nullish_empty v)") (auto simp: trimSafe_def)

lemma trimSafe_nullish: "trimSafe JUndefined = Inr []" "trimSafe JNull = Inr []"
  by (simp_all add: trimSafe_def replace_crlf_space_def js_trim_def)

lemma clean_obj_props:
  "get_prop (clean_obj c) (js ''name'') = JStr (name c)"
  "get_prop (clean_obj c) (js ''email'') = JStr (email c)"
  "get_prop (clean_obj c) (js ''message'') = JStr (message c)"
  by (simp_all add: get_prop_def clean_obj_def js_def)

lemma sanitizeInput_fixed:
  assumes "sanitizeInput x = Inr c"
  shows "sanitizeInput (clean_obj c) = Inr c"
proof -
  from assms obtain t where
    n: "trimSafe (get_prop x (js ''name'')) = Inr (name c)" and
    m: "trimSafe (get_prop x (js ''email'')) = Inr (email c)" and
    t: "message c = js_trim (remove_cr t)"
    by (auto simp: sanitizeInput_def split: sum.splits)
  have "trimSafe (JStr (name c)) = Inr (name c)"
    using trimSafe_shape [OF n] by (simp add: trimSafe_fixed)
  moreover have "trimSafe (JStr (email c)) = Inr (email c)"
    using trimSafe_shape [OF m] by (simp add: trimSafe_fixed)
  moreover have "js_trim (remove_cr (message c)) = message c"
    using message_shape [of t] by (simp add: t remove_cr_fixed js_trim_fixed)
  ultimately show ?thesis
    by (simp add: sanitizeInput_def clean_obj_props)
qed

text \<open>
  C8 (as amended). For every input object, \<open>sanitizeInput\<close> returns (does not throw)
  exactly when \<open>String\<close> can render each of \<open>name\<close>, \<open>email\<close> and \<open>message\<close>,
  that is, when none of them is an object with an own property \<open>toString\<close> or an
  array holding one. What it returns is a copy: \<open>name\<close> and \<open>email\<close> are the
  rendering of the field with every carriage return and every line feed replaced by a
  space, trimmed; \<open>message\<close> is the rendering of the field with every carriage return
  removed, trimmed, its line feeds kept. So the three fields have no whitespace at
  either end, \<open>name\<close> and \<open>email\<close> hold no carriage return and no line feed,
  \<open>message\<close> holds no carriage return, and an absent or \<open>null\<close> field becomes the empty
  string.
\<close>

theorem sanitizeInput_contract:
  "((\<exists>c. sanitizeInput obj = Inr c) \<longleftrightarrow>
      renderable (get_prop obj (js ''name'')) \<and> renderable (get_prop obj (js ''email''))
      \<and> renderable (get_prop obj (js ''message'')))
   \<and> (\<forall>c. sanitizeInput obj = Inr c \<longrightarrow>
        no_edge_ws (name c) \<and> no_edge_ws (email c) \<and> no_edge_ws (message c)
      \<and> CR \<notin> set (name c) \<and> LF \<notin> set (name c)
      \<and> CR \<notin> set (email c) \<and> LF \<notin> set (email c)
      \<and> CR \<notin> set (message c)
      \<and> (\<forall>s. js_String (nullish_empty (get_prop obj (js ''name''))) = Inr s
            \<longrightarrow> name c = js_trim (replace_crlf_space s))
      \<and> (\<forall>s. js_String (nullish_empty (get_prop obj (js ''email''))) = Inr s
            \<longrightarrow> email c = js_trim (replace_crlf_space s))
      \<and> (\<forall>s. js_String (nullish_empty (get_prop obj (js ''message''))) = Inr s
            \<longrightarrow> message c = js_trim (remove_cr s))
      \<and> (\<forall>s. obj (js ''name'') = Some (JStr s) \<longrightarrow> name c = js_trim (replace_crlf_space s))
      \<and> (\<forall>s. obj (js ''email'') = Some (JStr s) \<longrightarrow> email c = js_trim (replace_crlf_space s))
      \<and> (\<forall>s. obj (js ''message'') = Some (JStr s) \<longrightarrow> message c = js_trim (remove_cr s))
      \<and> (obj (js ''name'') \<in> {None, Some JNull} \<longrightarrow> name c = [])
      \<and> (obj (js ''email'') \<in> {None, Some JNull} \<longrightarrow> email c = [])
      \<and> (obj (js ''message'') \<in> {None, Some JNull} \<longrightarrow> message c = []))"
proof (intro conjI allI impI)
  show "(\<exists>c. sanitizeInput obj = Inr c) \<longleftrightarrow>
      renderable (get_prop obj (js ''name'')) \<and> renderable (get_prop obj (js ''email''))
      \<and> renderable (get_prop obj (js ''message''))"
  proof
    assume "\<exists>c. sanitizeInput obj = Inr c"
    then obtain n m t where "trimSafe (get_prop obj (js ''name'')) = Inr n"
      and "trimSafe (get_prop obj (js ''email'')) = Inr m"
      and "js_String (nullish_empty (get_prop obj (js ''message''))) = Inr t"
      by (auto simp: sanitizeInput_def split: sum.splits)
    then show "renderable (get_prop obj (js ''name'')) \<and> renderable (get_prop obj (js ''email''))
      \<and> renderable (get_prop obj (js ''message''))"
      using renderable_trimSafe renderable_String by blast
  next
    assume "renderable (get_prop obj (js ''name'')) \<and> renderable (get_prop obj (js ''email''))
      \<and> renderable (get_prop obj (js ''message''))"
    then obtain n m t where "trimSafe (get_prop obj (js ''name'')) = Inr n"
      and "trimSafe (get_prop obj (js ''email'')) = Inr m"
      and "js_String (nullish_empty (get_prop obj (js ''message''))) = Inr t"
      using renderable_trimSafe renderable_String by blast
    then show "\<exists>c. sanitizeInput obj = Inr c"
      by (simp add: sanitizeInput_def)
  qed
next
  fix c
  assume r: "sanitizeInput obj = Inr c"
  then obtain sn sm t where
    sn: "js_String (nullish_empty (get_prop obj (js ''name''))) = Inr sn" and
    sm: "js_String (nullish_empty (get_prop obj (js ''email''))) = Inr sm" and
    t: "js_String (nullish_empty (get_prop obj (js ''message''))) = Inr t" and
    c: "c = \<lparr>name = js_trim (replace_crlf_space sn), email = js_trim (replace_crlf_space sm),
             message = js_trim (remove_cr t)\<rparr>"
    by (auto simp: sanitizeInput_def trimSafe_def split: sum.splits)
  have n: "trimSafe (get_prop obj (js ''name'')) = Inr (name c)"
    and m: "trimSafe (get_prop obj (js ''email'')) = Inr (email c)"
    by (simp_all add: trimSafe_def sn sm c)
  show "no_edge_ws (name c)" "CR \<notin> set (name c)" "LF \<notin> set (name c)"
    using trimSafe_shape [OF n] by simp_all
  show "no_edge_ws (email c)" "CR \<notin> set (email c)" "LF \<notin> set (email c)"
    using trimSafe_shape [OF m] by simp_all
  show "no_edge_ws (message c)" "CR \<notin> set (message c)"
    using message_shape [of t] by (simp_all add: c)
  show "obj (js ''name'') \<in> {None, Some JNull} \<Longrightarrow> name c = []"
    using n by (auto simp: get_prop_def trimSafe_nullish)
  show "obj (js ''email'') \<in> {None, Some JNull} \<Longrightarrow> email c = []"
    using m by (auto simp: get_prop_def trimSafe_nullish)
  show "obj (js ''message'') \<in> {None, Some JNull} \<Longrightarrow> message c = []"
    using t by (auto simp: c get_prop_def remove_cr_def js_trim_def)
  show "name c = js_trim (replace_crlf_space s)"
    if "js_String (nullish_empty (get_prop obj (js ''name''))) = Inr s" for s
    using that sn by (simp add: c)
  show "email c = js_trim (replace_crlf_space s)"
    if "js_String (nullish_empty (get_prop obj (js ''email''))) = Inr s" for s
    using that sm by (simp add: c)
  show "message c = js_trim (remove_cr s)"
    if "js_String (nullish_empty (get_prop obj (js ''message''))) = Inr s" for s
    using that t by (simp add: c)
  show "name c = js_trim (replace_crlf_space s)" if "obj (js ''name'') = Some (JStr s)" for s
    using that sn by (simp add: c get_prop_def)
  show "email c = js_trim (replace_crlf_space s)" if "obj (js ''email'') = Some (JStr s)" for s
    using that sm by (simp add: c get_prop_def)
  show "message c = js_trim (remove_cr s)" if "obj (js ''message'') = Some (JStr s)" for s
    using that t by (simp add: c get_prop_def)
qed

text \<open>
  The theorem at the object \<open>{ name: " Jane\r\n", message: "Hello\r\nthere " }\<close> with no
  \<open>email\<close>: the call returns, each field is the copy the theorem says, and the line
  feed of the message is still there.
\<close>

theorem sanitizeInput_contract_witness:
  "sanitizeInput [js ''name'' \<mapsto> JStr (js '' Jane'' @ [CR, LF]),
                  js ''message'' \<mapsto> JStr (js ''Hello'' @ [CR, LF] @ js ''there '')]
   = Inr \<lparr>name = js ''Jane'', email = [], message = js ''Hello'' @ [LF] @ js ''there''\<rparr>"
proof -
  let ?obj = "[js ''name'' \<mapsto> JStr (js '' Jane'' @ [CR, LF]),
               js ''message'' \<mapsto> JStr (js ''Hello'' @ [CR, LF] @ js ''there '')]"
  have k: "js ''name'' \<noteq> js ''message''" "js ''email'' \<noteq> js ''message''"
    "js ''email'' \<noteq> js ''name''"
    by (simp_all add: js_def)
  have p: "renderable (get_prop ?obj (js ''name''))" "renderable (get_prop ?obj (js ''email''))"
    "renderable (get_prop ?obj (js ''message''))"
    using k by (simp_all add: get_prop_def)
  have f: "?obj (js ''name'') = Some (JStr (js '' Jane'' @ [CR, LF]))"
    "?obj (js ''email'') \<in> {None, Some JNull}"
    "?obj (js ''message'') = Some (JStr (js ''Hello'' @ [CR, LF] @ js ''there ''))"
    using k by simp_all
  note T = sanitizeInput_contract [of ?obj]
  from T p obtain c where c: "sanitizeInput ?obj = Inr c" by blast
  from T c f have "name c = js_trim (replace_crlf_space (js '' Jane'' @ [CR, LF]))"
    and "email c = []"
    and "message c = js_trim (remove_cr (js ''Hello'' @ [CR, LF] @ js ''there ''))"
    by blast+
  then have "name c = js ''Jane''" and "email c = []"
    and "message c = js ''Hello'' @ [LF] @ js ''there''"
    by (simp_all add: replace_crlf_space_def remove_cr_def js_trim_def is_ws_def js_def
        CR_def LF_def SP_def)
  then have "c = \<lparr>name = js ''Jane'', email = [], message = js ''Hello'' @ [LF] @ js ''there''\<rparr>"
    by (cases c) simp
  with c show ?thesis by simp
qed

text \<open>
  C8 as stated fails twice. A line feed inside the message survives: \<open>message\<close> is
  cleaned with \<open>/\r/g\<close>, not with \<open>/[\r\n]/g\<close>. And the call throws on a field that
  \<open>String\<close> cannot convert, such as \<open>{ name: { toString: 1 } }\<close>.
\<close>

theorem sanitizeInput_contract_counterexample:
  "sanitizeInput [js ''name'' \<mapsto> JStr (js ''Jane''),
                  js ''email'' \<mapsto> JStr (js ''jane@example.com''),
                  js ''message'' \<mapsto> JStr (js ''Hello'' @ [LF] @ js ''there'')]
     = Inr \<lparr>name = js ''Jane'', email = js ''jane@example.com'',
            message = js ''Hello'' @ [LF] @ js ''there''\<rparr>
   \<and> LF \<in> set (js ''Hello'' @ [LF] @ js ''there'')
   \<and> sanitizeInput [js ''name'' \<mapsto> JObj [js ''toString'' \<mapsto> JNum (js ''1'')]]
     = Inl TypeError"
  by (simp add: sanitizeInput_def trimSafe_def get_prop_def replace_crlf_space_def
      remove_cr_def js_trim_def is_ws_def js_def CR_def LF_def SP_def)

text \<open>
  C9. \<open>sanitizeInput\<close> is idempotent: \<open>sanitizeInput(sanitizeInput(x))\<close> is
  \<open>sanitizeInput(x)\<close>, for every object \<open>x\<close> (where the inner call throws, so does the
  outer expression, with the same error).
\<close>

theorem sanitizeInput_idempotent:
  "(case sanitizeInput x of Inl e \<Rightarrow> Inl e | Inr c \<Rightarrow> sanitizeInput (clean_obj c))
   = sanitizeInput x"
  by (cases "sanitizeInput x") (simp_all add: sanitizeInput_fixed)

theorem sanitizeInput_idempotent_witness:
  "sanitizeInput (clean_obj \<lparr>name = js ''Jane'', email = js ''jane@example.com'',
                              message = js ''Hello'' @ [LF] @ js ''there''\<rparr>)
   = Inr \<lparr>name = js ''Jane'', email = js ''jane@example.com'',
          message = js ''Hello'' @ [LF] @ js ''there''\<rparr>"
proof -
  let ?x = "[js ''name'' \<mapsto> JStr (js ''  Jane ''),
             js ''email'' \<mapsto> JStr (js ''jane@example.com'' @ [CR, LF]),
             js ''message'' \<mapsto> JStr (js '' Hello'' @ [CR, LF] @ js ''there'')]"
  have "sanitizeInput ?x
    = Inr \<lparr>name = js ''Jane'', email = js ''jane@example.com'',
           message = js ''Hello'' @ [LF] @ js ''there''\<rparr>"
    by (simp add: sanitizeInput_def trimSafe_def get_prop_def replace_crlf_space_def
        remove_cr_def js_trim_def is_ws_def js_def CR_def LF_def SP_def)
  with sanitizeInput_idempotent [of ?x] show ?thesis by simp
qed
section \<open>Properties of the schema\<close>

lemma js_keys_distinct:
  "js ''name'' \<noteq> js ''email''" "js ''name'' \<noteq> js ''message''" "js ''email'' \<noteq> js ''message''"
  "js ''email'' \<noteq> js ''name''" "js ''message'' \<noteq> js ''name''" "js ''message'' \<noteq> js ''email''"
  by (simp_all add: js_def)

lemma joi_name:
  "joi_string g [MinLen 1, MaxLen 120] v = (if name_ok v then [] else
     (case v of JUndefined \<Rightarrow> [AnyRequired]
      | JStr s \<Rightarrow> if s = [] then [StringEmpty] else [StringMax 120]
      | _ \<Rightarrow> [StringBase]))"
  by (cases v) (auto simp: map_filter_simps Suc_le_eq)

lemma joi_email:
  "joi_string g [EmailRule] v = (if address_ok g v then [] else
     (case v of JUndefined \<Rightarrow> [AnyRequired]
      | JStr s \<Rightarrow> if s = [] then [StringEmpty] else [StringEmail]
      | _ \<Rightarrow> [StringBase]))"
  by (cases v) (auto simp: map_filter_simps email_ok_def)

lemma joi_message:
  "joi_string g [MinLen 1, MaxLen 5000] v = (if message_ok v then [] else
     (case v of JUndefined \<Rightarrow> [AnyRequired]
      | JStr s \<Rightarrow> if s = [] then [StringEmpty] else [StringMax 5000]
      | _ \<Rightarrow> [StringBase]))"
  by (cases v) (auto simp: map_filter_simps Suc_le_eq)

text \<open>Each key of the schema yields no detail when its field is in order, and one otherwise.\<close>

lemma key_details_name:
  "key_details g obj (js ''name'', [MinLen 1, MaxLen 120]) =
     (if field_ok g obj (js ''name'') then []
      else [\<lparr>d_message = hd (joi_string g [MinLen 1, MaxLen 120] (get_prop obj (js ''name''))),
             d_path = [js ''name'']\<rparr>])"
  unfolding key_details_def field_ok_def joi_name
  by (auto simp: Suc_le_eq split: jsval.splits)

lemma key_details_email:
  "key_details g obj (js ''email'', [EmailRule]) =
     (if field_ok g obj (js ''email'') then []
      else [\<lparr>d_message = hd (joi_string g [EmailRule] (get_prop obj (js ''email''))),
             d_path = [js ''email'']\<rparr>])"
  unfolding key_details_def field_ok_def joi_email
  by (auto simp: js_keys_distinct email_ok_def split: jsval.splits)

lemma key_details_message:
  "key_details g obj (js ''message'', [MinLen 1, MaxLen 5000]) =
     (if field_ok g obj (js ''message'') then []
      else [\<lparr>d_message = hd (joi_string g [MinLen 1, MaxLen 5000] (get_prop obj (js ''message''))),
             d_path = [js ''message'']\<rparr>])"
  unfolding key_details_def field_ok_def joi_message
  by (auto simp: js_keys_distinct Suc_le_eq split: jsval.splits)

lemma validate_contact:
  "validate g contactSchema (Some obj) =
     (let ds = key_details g obj (js ''name'', [MinLen 1, MaxLen 120])
             @ key_details g obj (js ''email'', [EmailRule])
             @ key_details g obj (js ''message'', [MinLen 1, MaxLen 5000])
      in if ds = [] then Valid (Some (obj |` {js ''name'', js ''email'', js ''message''}))
         else Invalid ds)"
  by (simp add: validate_def contactSchema_def del: One_nat_def)

lemma validate_paths:
  "validate g contactSchema (Some obj) =
     (if filter (\<lambda>k. \<not> field_ok g obj k) [js ''name'', js ''email'', js ''message''] = []
      then Valid (Some (obj |` {js ''name'', js ''email'', js ''message''}))
      else Invalid (concat (map (key_details g obj) contactSchema)))
   \<and> map d_path (concat (map (key_details g obj) contactSchema))
       = map (\<lambda>k. [k]) (filter (\<lambda>k. \<not> field_ok g obj k) [js ''name'', js ''email'', js ''message''])"
  unfolding validate_contact
  by (simp add: contactSchema_def key_details_name key_details_email key_details_message Let_def
      del: One_nat_def)

section \<open>Properties of the route\<close>

lemma route_cases:
  "contact_route e g sink st now req =
     (if fst (consume (points e) (duration e) now st (client_key (trustProxy e) req))
      then (contact_handler e g sink req,
            snd (consume (points e) (duration e) now st (client_key (trustProxy e) req)))
      else (\<lparr>response = Some \<lparr>status = 429, json = ErrorBody (js ''rate_limited'')\<rparr>,
             sink_calls = []\<rparr>,
            snd (consume (points e) (duration e) now st (client_key (trustProxy e) req))))"
  by (simp add: contact_route_def rateLimiterMiddleware_def split: prod.splits bool.splits)

lemma handler_honeypot:
  assumes "honeypot_triggered (honeypotField e) (body req) = Inr True"
  shows "contact_handler e g sink req =
    \<lparr>response = Some \<lparr>status = 202, json = SuccessBody JNull\<rparr>, sink_calls = []\<rparr>"
  using assms by (simp add: contact_handler_def)

lemma handler_invalid:
  assumes "honeypot_triggered (honeypotField e) (body req) = Inr False"
    and "validate g contactSchema (body req) = Invalid ds"
  shows "contact_handler e g sink req =
    \<lparr>response = Some \<lparr>status = 400, json = ValidationErrorBody ds\<rparr>, sink_calls = []\<rparr>"
  using assms by (simp add: contact_handler_def)

lemma handler_valid:
  assumes "honeypot_triggered (honeypotField e) (body req) = Inr False"
    and "validate g contactSchema (body req) = Valid (Some v)"
    and "sanitizeInput v = Inr p"
  shows "contact_handler e g sink req =
    (case sink p of
       Resolved r \<Rightarrow>
         \<lparr>response = Some \<lparr>status = 202, json = SuccessBody (result_id r)\<rparr>, sink_calls = [p]\<rparr>
     | Rejected err \<Rightarrow>
         \<lparr>response = Some \<lparr>status = 500, json = ErrorBody (js ''send_failed'')\<rparr>,
          sink_calls = [p]\<rparr>)"
  using assms by (simp add: contact_handler_def)

text \<open>The handler calls the sink at most once, and only after validation has passed.\<close>

lemma handler_sink_calls:
  "sink_calls (contact_handler e g sink req) = []
   \<or> (\<exists>v p. validate g contactSchema (body req) = Valid (Some v) \<and> sanitizeInput v = Inr p
        \<and> contact_handler e g sink req =
            (case sink p of
               Resolved r \<Rightarrow>
                 \<lparr>response = Some \<lparr>status = 202, json = SuccessBody (result_id r)\<rparr>,
                  sink_calls = [p]\<rparr>
             | Rejected err \<Rightarrow>
                 \<lparr>response = Some \<lparr>status = 500, json = ErrorBody (js ''send_failed'')\<rparr>,
                  sink_calls = [p]\<rparr>))"
proof (cases "honeypot_triggered (honeypotField e) (body req)")
  case (Inl err)
  then show ?thesis by (simp add: contact_handler_def)
next
  case (Inr b)
  show ?thesis
  proof (cases b)
    case True
    with Inr show ?thesis by (simp add: handler_honeypot)
  next
    case False
    with Inr have h: "honeypot_triggered (honeypotField e) (body req) = Inr False" by simp
    show ?thesis
    proof (cases "validate g contactSchema (body req)")
      case (Invalid ds)
      with h show ?thesis by (simp add: handler_invalid)
    next
      case (Valid vo)
      show ?thesis
      proof (cases vo)
        case None
        with h Valid show ?thesis by (simp add: contact_handler_def)
      next
        case (Some v)
        show ?thesis
        proof (cases "sanitizeInput v")
          case (Inl err)
          with h Valid Some show ?thesis by (simp add: contact_handler_def)
        next
          case (Inr p)
          with h Valid Some have "validate g contactSchema (body req) = Valid (Some v)"
            and "sanitizeInput v = Inr p" by simp_all
          with handler_valid [OF h this] show ?thesis by blast
        qed
      qed
    qed
  qed
qed

lemma sanitize_validated:
  assumes "obj (js ''name'') = Some (JStr n)"
    and "obj (js ''email'') = Some (JStr m)"
    and "obj (js ''message'') = Some (JStr t)"
  shows "sanitizeInput (obj |` {js ''name'', js ''email'', js ''message''}) =
    Inr \<lparr>name = js_trim (replace_crlf_space n), email = js_trim (replace_crlf_space m),
         message = js_trim (remove_cr t)\<rparr>"
  using assms by (simp add: sanitizeInput_def trimSafe_def get_prop_def)

lemma fields_ok_iff:
  assumes "obj (js ''name'') = Some (JStr n)"
    and "obj (js ''email'') = Some (JStr m)"
    and "obj (js ''message'') = Some (JStr t)"
  shows "filter (\<lambda>k. \<not> field_ok g obj k) [js ''name'', js ''email'', js ''message''] = []
    \<longleftrightarrow> (1 \<le> length n \<and> length n \<le> 120) \<and> email_ok g m \<and> (1 \<le> length t \<and> length t \<le> 5000)"
  using assms by (auto simp: field_ok_def get_prop_def js_keys_distinct)

lemma honeypot_default: "honeypotField env_unset = js ''website''"
  by (simp add: honeypotField_def env_unset_def or_else_def js_def)

lemma website_not_inherited: "js ''website'' \<notin> set object_prototype_keys"
  by (simp add: object_prototype_keys_def js_def)

lemma jane_handled:
  "contact_handler env_unset lenient simulate_sink jane =
     \<lparr>response = Some \<lparr>status = 202, json = SuccessBody JNull\<rparr>, sink_calls = [jane_payload]\<rparr>"
proof -
  let ?obj = "[js ''name'' \<mapsto> JStr (js ''Jane''), js ''email'' \<mapsto> JStr (js ''jane@example.com''),
               js ''message'' \<mapsto> JStr (js ''Hello!'')]"
  have b: "body jane = Some ?obj" by (simp add: jane_def)
  have "?obj (js ''website'') = None" by (simp add: js_def)
  then have h: "honeypot_triggered (honeypotField env_unset) (body jane) = Inr False"
    by (simp add: honeypot_triggered_def honeypot_default website_not_inherited b)
  have f: "?obj (js ''name'') = Some (JStr (js ''Jane''))"
    "?obj (js ''email'') = Some (JStr (js ''jane@example.com''))"
    "?obj (js ''message'') = Some (JStr (js ''Hello!''))"
    by (simp_all add: js_keys_distinct)
  have "email_ok lenient (js ''jane@example.com'')"
    by (simp add: email_ok_def lenient_def at_sign_def js_def)
  then have "filter (\<lambda>k. \<not> field_ok lenient ?obj k) [js ''name'', js ''email'', js ''message''] = []"
    unfolding fields_ok_iff [OF f] by (simp add: js_def)
  then have v: "validate lenient contactSchema (body jane)
      = Valid (Some (?obj |` {js ''name'', js ''email'', js ''message''}))"
    using validate_paths [of lenient ?obj] b by simp
  have s: "sanitizeInput (?obj |` {js ''name'', js ''email'', js ''message''}) = Inr jane_payload"
    unfolding sanitize_validated [OF f]
    by (simp add: jane_payload_def replace_crlf_space_def remove_cr_def js_trim_def is_ws_def
        js_def CR_def LF_def SP_def)
  show ?thesis
    unfolding handler_valid [OF h v s]
    by (simp add: simulate_sink_def result_id_def js_or_def get_prop_def)
qed

lemma bot_handled:
  "contact_handler env_unset lenient sink bot =
     \<lparr>response = Some \<lparr>status = 202, json = SuccessBody JNull\<rparr>, sink_calls = []\<rparr>"
proof -
  have "js_trim (js ''http://spam.example'') \<noteq> []"
    by (simp add: js_trim_def is_ws_def js_def)
  then have "honeypot_triggered (honeypotField env_unset) (body bot) = Inr True"
    by (simp add: honeypot_triggered_def honeypot_default bot_def)
  then show ?thesis by (rule handler_honeypot)
qed

text \<open>
  Six requests of one client within a minute, on the default limiter: five are handled,
  the sixth is answered 429.
\<close>

lemma serve_six:
  "serve env_unset g sink Map.empty
     [(0, r), (1000, r), (2000, r), (3000, r), (4000, r), (5000, r)]
   = [contact_handler env_unset g sink r, contact_handler env_unset g sink r,
      contact_handler env_unset g sink r, contact_handler env_unset g sink r,
      contact_handler env_unset g sink r,
      \<lparr>response = Some \<lparr>status = 429, json = ErrorBody (js ''rate_limited'')\<rparr>, sink_calls = []\<rparr>]"
  by (simp add: route_cases consume_def live_entry_def points_def duration_def env_unset_def)


lemma triggered:
  assumes "obj hp = Some v" and "v \<noteq> JUndefined" and "js_String v = Inr s" and "js_trim s \<noteq> []"
  shows "honeypot_triggered hp (Some obj) = Inr True"
  using assms by (auto simp: honeypot_triggered_def split: jsval.splits)


section \<open>The claims about POST /contact\<close>




text \<open>
  C2 (as amended). For every \<open>POST /contact\<close> request in which the configured honeypot
  field (default \<open>website\<close>) is present and not blank after trimming, the sink is never
  invoked. When the rate limiter admits the request the response is 202 with body
  \<open>{ success: true, id: null }\<close>, which is also the response to every submission that
  reaches the sink in simulate mode; when the rate limiter denies it the response is
  429 \<open>{ error: "rate_limited" }\<close>, as for any other request.
\<close>

theorem honeypot_never_reaches_sink:
  assumes "body req = Some obj"
    and "obj (honeypotField e) = Some v" and "v \<noteq> JUndefined"
    and "js_String v = Inr s" and "js_trim s \<noteq> []"
  shows "fst (contact_route e g sink st now req) =
           (if admitted e st now req
            then \<lparr>response = Some \<lparr>status = 202, json = SuccessBody JNull\<rparr>, sink_calls = []\<rparr>
            else \<lparr>response = Some \<lparr>status = 429, json = ErrorBody (js ''rate_limited'')\<rparr>,
                  sink_calls = []\<rparr>)
    \<and> (\<forall>req' st' now'. sink_calls (fst (contact_route e g simulate_sink st' now' req')) \<noteq> []
          \<longrightarrow> response (fst (contact_route e g simulate_sink st' now' req'))
              = Some \<lparr>status = 202, json = SuccessBody JNull\<rparr>)"
proof -
  have "honeypot_triggered (honeypotField e) (body req) = Inr True"
    using triggered [of obj "honeypotField e" v s] assms by simp
  then have "contact_handler e g sink req =
      \<lparr>response = Some \<lparr>status = 202, json = SuccessBody JNull\<rparr>, sink_calls = []\<rparr>"
    by (rule handler_honeypot)
  then have first: "fst (contact_route e g sink st now req) =
      (if admitted e st now req
       then \<lparr>response = Some \<lparr>status = 202, json = SuccessBody JNull\<rparr>, sink_calls = []\<rparr>
       else \<lparr>response = Some \<lparr>status = 429, json = ErrorBody (js ''rate_limited'')\<rparr>,
             sink_calls = []\<rparr>)"
    by (simp add: route_cases admitted_def)
  have second: "response (fst (contact_route e g simulate_sink st' now' req'))
      = Some \<lparr>status = 202, json = SuccessBody JNull\<rparr>"
    if "sink_calls (fst (contact_route e g simulate_sink st' now' req')) \<noteq> []"
    for req' st' now'
  proof -
    from that have a: "fst (contact_route e g simulate_sink st' now' req')
        = contact_handler e g simulate_sink req'"
      by (auto simp: route_cases split: if_splits)
    with that have "sink_calls (contact_handler e g simulate_sink req') \<noteq> []" by simp
    with handler_sink_calls [of e g simulate_sink req'] obtain p where
      "contact_handler e g simulate_sink req' =
         (case simulate_sink p of
            Resolved r \<Rightarrow>
              \<lparr>response = Some \<lparr>status = 202, json = SuccessBody (result_id r)\<rparr>, sink_calls = [p]\<rparr>
          | Rejected err \<Rightarrow>
              \<lparr>response = Some \<lparr>status = 500, json = ErrorBody (js ''send_failed'')\<rparr>,
               sink_calls = [p]\<rparr>)"
      by blast
    then have "response (contact_handler e g simulate_sink req')
        = Some \<lparr>status = 202, json = SuccessBody JNull\<rparr>"
      by (simp add: simulate_sink_def result_id_def js_or_def get_prop_def)
    with a show ?thesis by simp
  qed
  from first second show ?thesis by blast
qed

text \<open>The theorem at a first request that fills \<open>website\<close>.\<close>

theorem honeypot_never_reaches_sink_witness:
  "fst (contact_route env_unset lenient simulate_sink Map.empty 0 bot)
   = \<lparr>response = Some \<lparr>status = 202, json = SuccessBody JNull\<rparr>, sink_calls = []\<rparr>"
proof -
  let ?obj = "[js ''name'' \<mapsto> JStr (js ''Jane''), js ''email'' \<mapsto> JStr (js ''jane@example.com''),
               js ''message'' \<mapsto> JStr (js ''Hello!''),
               js ''website'' \<mapsto> JStr (js ''http://spam.example'')]"
  have b: "body bot = Some ?obj" by (simp add: bot_def)
  have w: "?obj (honeypotField env_unset) = Some (JStr (js ''http://spam.example''))"
    by (simp add: honeypot_default)
  have u: "JStr (js ''http://spam.example'') \<noteq> JUndefined" by simp
  have r: "js_String (JStr (js ''http://spam.example'')) = Inr (js ''http://spam.example'')"
    by simp
  have n: "js_trim (js ''http://spam.example'') \<noteq> []"
    by (simp add: js_trim_def is_ws_def js_def)
  have a: "admitted env_unset Map.empty 0 bot"
    by (simp add: admitted_def consume_def live_entry_def points_def env_unset_def)
  from honeypot_never_reaches_sink [OF b w u r n, of lenient simulate_sink Map.empty 0] a
  show ?thesis by simp
qed

text \<open>
  C2 as stated fails: the sixth request of one client within a minute that fills the
  honeypot field is answered 429, not 202.
\<close>

theorem honeypot_never_reaches_sink_counterexample:
  "serve env_unset lenient simulate_sink Map.empty
     [(0, bot), (1000, bot), (2000, bot), (3000, bot), (4000, bot), (5000, bot)]
   = [\<lparr>response = Some \<lparr>status = 202, json = SuccessBody JNull\<rparr>, sink_calls = []\<rparr>,
      \<lparr>response = Some \<lparr>status = 202, json = SuccessBody JNull\<rparr>, sink_calls = []\<rparr>,
      \<lparr>response = Some \<lparr>status = 202, json = SuccessBody JNull\<rparr>, sink_calls = []\<rparr>,
      \<lparr>response = Some \<lparr>status = 202, json = SuccessBody JNull\<rparr>, sink_calls = []\<rparr>,
      \<lparr>response = Some \<lparr>status = 202, json = SuccessBody JNull\<rparr>, sink_calls = []\<rparr>,
      \<lparr>response = Some \<lparr>status = 429, json = ErrorBody (js ''rate_limited'')\<rparr>, sink_calls = []\<rparr>]"
  unfolding serve_six bot_handled by (rule refl)

text \<open>
  C4 (as amended). The Schema Validator operates on the raw body: for a request whose
  three fields are strings (and whose honeypot check does not trigger), the constraints
  (name 1 to 120, address grammar, message 1 to 5000) are checked against the raw values.
  Where they hold, the sanitizer is applied to the validated value and its result is
  what the sink receives; where they do not, the response is 400 and the sink is not
  invoked.
\<close>

theorem validation_reads_raw_body:
  assumes "body req = Some obj"
    and "honeypot_triggered (honeypotField e) (body req) = Inr False"
    and "obj (js ''name'') = Some (JStr n)"
    and "obj (js ''email'') = Some (JStr m)"
    and "obj (js ''message'') = Some (JStr t)"
  shows "if (1 \<le> length n \<and> length n \<le> 120) \<and> email_ok g m \<and> (1 \<le> length t \<and> length t \<le> 5000)
     then sink_calls (contact_handler e g sink req)
            = [\<lparr>name = js_trim (replace_crlf_space n), email = js_trim (replace_crlf_space m),
                message = js_trim (remove_cr t)\<rparr>]
          \<and> (\<exists>r. response (contact_handler e g sink req) = Some r \<and> status r \<noteq> 400)
     else sink_calls (contact_handler e g sink req) = []
          \<and> (\<exists>ds. response (contact_handler e g sink req)
                = Some \<lparr>status = 400, json = ValidationErrorBody ds\<rparr>)"
proof (cases "(1 \<le> length n \<and> length n \<le> 120) \<and> email_ok g m \<and> (1 \<le> length t \<and> length t \<le> 5000)")
  case True
  let ?p = "\<lparr>name = js_trim (replace_crlf_space n), email = js_trim (replace_crlf_space m),
             message = js_trim (remove_cr t)\<rparr>"
  from True have "filter (\<lambda>k. \<not> field_ok g obj k) [js ''name'', js ''email'', js ''message''] = []"
    unfolding fields_ok_iff [OF assms(3-5)] by simp
  then have v: "validate g contactSchema (body req)
      = Valid (Some (obj |` {js ''name'', js ''email'', js ''message''}))"
    using validate_paths [of g obj] assms(1) by simp
  have s: "sanitizeInput (obj |` {js ''name'', js ''email'', js ''message''}) = Inr ?p"
    by (rule sanitize_validated [OF assms(3-5)])
  have "sink_calls (contact_handler e g sink req) = [?p]
      \<and> (\<exists>r. response (contact_handler e g sink req) = Some r \<and> status r \<noteq> 400)"
    unfolding handler_valid [OF assms(2) v s] by (cases "sink ?p") simp_all
  with True show ?thesis by simp
next
  case False
  then have "filter (\<lambda>k. \<not> field_ok g obj k) [js ''name'', js ''email'', js ''message''] \<noteq> []"
    unfolding fields_ok_iff [OF assms(3-5)] by simp
  then have "validate g contactSchema (body req)
      = Invalid (concat (map (key_details g obj) contactSchema))"
    using validate_paths [of g obj] assms(1) by simp
  from handler_invalid [OF assms(2) this, of sink] False show ?thesis by simp
qed

text \<open>
  The theorem at a name of 120 letters and a space: the raw value is too long, the
  sanitized one would not be; the response is 400.
\<close>

theorem validation_reads_raw_body_witness:
  "sink_calls (contact_handler env_unset lenient simulate_sink
     \<lparr>xff = None, remoteAddress = None,
      body = Some [js ''name'' \<mapsto> JStr (replicate 120 97 @ [SP]),
                   js ''email'' \<mapsto> JStr (js ''jane@example.com''),
                   js ''message'' \<mapsto> JStr (js ''Hello!'')]\<rparr>) = []
   \<and> length (js_trim (replace_crlf_space (replicate 120 97 @ [SP]))) = 120"
proof -
  let ?obj = "[js ''name'' \<mapsto> JStr (replicate 120 97 @ [SP]),
               js ''email'' \<mapsto> JStr (js ''jane@example.com''),
               js ''message'' \<mapsto> JStr (js ''Hello!'')]"
  let ?req = "\<lparr>xff = None, remoteAddress = None, body = Some ?obj\<rparr>"
  have b: "body ?req = Some ?obj" by simp
  have "?obj (js ''website'') = None" by (simp add: js_def)
  then have h: "honeypot_triggered (honeypotField env_unset) (body ?req) = Inr False"
    by (simp add: honeypot_triggered_def honeypot_default website_not_inherited)
  have n: "?obj (js ''name'') = Some (JStr (replicate 120 97 @ [SP]))"
    and m: "?obj (js ''email'') = Some (JStr (js ''jane@example.com''))"
    and t: "?obj (js ''message'') = Some (JStr (js ''Hello!''))"
    by (simp_all add: js_keys_distinct)
  have l: "\<not> length (replicate 120 (97::jschar) @ [SP]) \<le> 120" by simp
  have "replace_crlf_space (replicate 120 97 @ [SP]) = replicate 120 97 @ [SP]"
    by (simp add: replace_crlf_space_def CR_def LF_def SP_def)
  moreover have "js_trim (replicate 120 97 @ [SP]) = replicate 120 97"
    by (simp add: js_trim_def is_ws_def SP_def dropWhile_append3)
  ultimately have k: "length (js_trim (replace_crlf_space (replicate 120 97 @ [SP]))) = 120"
    by simp
  from validation_reads_raw_body [OF b h n m t, of lenient simulate_sink] l k
  show ?thesis by simp
qed

text \<open>
  C4 as stated fails: the handler validates \<open>req.body\<close> and sanitizes afterwards. A name
  of one space passes validation (its raw length is 1) and reaches the sink as the empty
  string, which the schema rejects.
\<close>

theorem validation_reads_raw_body_counterexample:
  "contact_handler env_unset lenient simulate_sink
     \<lparr>xff = None, remoteAddress = None,
      body = Some [js ''name'' \<mapsto> JStr (js '' ''),
                   js ''email'' \<mapsto> JStr (js ''jane@example.com''),
                   js ''message'' \<mapsto> JStr (js ''Hello!'')]\<rparr>
   = \<lparr>response = Some \<lparr>status = 202, json = SuccessBody JNull\<rparr>,
      sink_calls = [\<lparr>name = [], email = js ''jane@example.com'', message = js ''Hello!''\<rparr>]\<rparr>
   \<and> validate lenient contactSchema
       (Some (clean_obj \<lparr>name = [], email = js ''jane@example.com'', message = js ''Hello!''\<rparr>))
     = Invalid [\<lparr>d_message = StringEmpty, d_path = [js ''name'']\<rparr>]"
proof -
  let ?obj = "[js ''name'' \<mapsto> JStr (js '' ''), js ''email'' \<mapsto> JStr (js ''jane@example.com''),
               js ''message'' \<mapsto> JStr (js ''Hello!'')]"
  let ?req = "\<lparr>xff = None, remoteAddress = None, body = Some ?obj\<rparr>"
  let ?c = "\<lparr>name = [], email = js ''jane@example.com'', message = js ''Hello!''\<rparr>"
  have "?obj (js ''website'') = None" by (simp add: js_def)
  then have h: "honeypot_triggered (honeypotField env_unset) (body ?req) = Inr False"
    by (simp add: honeypot_triggered_def honeypot_default website_not_inherited)
  have f: "?obj (js ''name'') = Some (JStr (js '' ''))"
    "?obj (js ''email'') = Some (JStr (js ''jane@example.com''))"
    "?obj (js ''message'') = Some (JStr (js ''Hello!''))"
    by (simp_all add: js_keys_distinct)
  have g: "email_ok lenient (js ''jane@example.com'')"
    by (simp add: email_ok_def lenient_def at_sign_def js_def)
  then have "filter (\<lambda>k. \<not> field_ok lenient ?obj k) [js ''name'', js ''email'', js ''message''] = []"
    unfolding fields_ok_iff [OF f] by (simp add: js_def)
  then have v: "validate lenient contactSchema (body ?req)
      = Valid (Some (?obj |` {js ''name'', js ''email'', js ''message''}))"
    using validate_paths [of lenient ?obj] by simp
  have s: "sanitizeInput (?obj |` {js ''name'', js ''email'', js ''message''}) = Inr ?c"
    unfolding sanitize_validated [OF f]
    by (simp add: replace_crlf_space_def remove_cr_def js_trim_def is_ws_def
        js_def CR_def LF_def SP_def)
  have first: "contact_handler env_unset lenient simulate_sink ?req
      = \<lparr>response = Some \<lparr>status = 202, json = SuccessBody JNull\<rparr>, sink_calls = [?c]\<rparr>"
    unfolding handler_valid [OF h v s]
    by (simp add: simulate_sink_def result_id_def js_or_def get_prop_def)
  have c: "clean_obj ?c (js ''name'') = Some (JStr [])"
    "clean_obj ?c (js ''email'') = Some (JStr (js ''jane@example.com''))"
    "clean_obj ?c (js ''message'') = Some (JStr (js ''Hello!''))"
    by (simp_all add: clean_obj_def js_keys_distinct)
  have "field_ok lenient (clean_obj ?c) (js ''email'')" "field_ok lenient (clean_obj ?c) (js ''message'')"
    "\<not> field_ok lenient (clean_obj ?c) (js ''name'')"
    using g by (simp_all add: field_ok_def get_prop_def c js_keys_distinct) (simp_all add: js_def)
  then have "validate lenient contactSchema (Some (clean_obj ?c))
      = Invalid [\<lparr>d_message = StringEmpty, d_path = [js ''name'']\<rparr>]"
    unfolding validate_contact key_details_name key_details_email key_details_message
    by (simp add: get_prop_def c)
  with first show ?thesis by simp
qed

text \<open>
  C5. Schema validation collects all field violations in one pass and does not throw:
  \<open>validate\<close> always returns, and when some field of the body violates its constraint
  the handler answers 400 \<open>{ error: "validation_error", details }\<close> where \<open>details\<close>
  has exactly one entry per violated field, in the order name, email, message. In
  particular \<open>{ name: "", email: "not-an-email", message: "" }\<close> yields three entries,
  whatever the rest of the address grammar is.
\<close>

theorem validation_collects_all:
  assumes "body req = Some obj"
    and "honeypot_triggered (honeypotField e) (body req) = Inr False"
    and "filter (\<lambda>k. \<not> field_ok g obj k) [js ''name'', js ''email'', js ''message''] \<noteq> []"
  shows "\<exists>ds. validate g contactSchema (body req) = Invalid ds
      \<and> map d_path ds
          = map (\<lambda>k. [k]) (filter (\<lambda>k. \<not> field_ok g obj k) [js ''name'', js ''email'', js ''message''])
      \<and> contact_handler e g sink req
          = \<lparr>response = Some \<lparr>status = 400, json = ValidationErrorBody ds\<rparr>, sink_calls = []\<rparr>
      \<and> validate g contactSchema
            (Some [js ''name'' \<mapsto> JStr [], js ''email'' \<mapsto> JStr (js ''not-an-email''),
                   js ''message'' \<mapsto> JStr []])
          = Invalid [\<lparr>d_message = StringEmpty, d_path = [js ''name'']\<rparr>,
                     \<lparr>d_message = StringEmail, d_path = [js ''email'']\<rparr>,
                     \<lparr>d_message = StringEmpty, d_path = [js ''message'']\<rparr>]"
proof -
  let ?ds = "concat (map (key_details g obj) contactSchema)"
  have v: "validate g contactSchema (body req) = Invalid ?ds"
    using validate_paths [of g obj] assms(1,3) by simp
  have p: "map d_path ?ds
      = map (\<lambda>k. [k]) (filter (\<lambda>k. \<not> field_ok g obj k) [js ''name'', js ''email'', js ''message''])"
    using validate_paths [of g obj] by simp
  have h: "contact_handler e g sink req
      = \<lparr>response = Some \<lparr>status = 400, json = ValidationErrorBody ?ds\<rparr>, sink_calls = []\<rparr>"
    by (rule handler_invalid [OF assms(2) v])
  let ?bad = "[js ''name'' \<mapsto> JStr [], js ''email'' \<mapsto> JStr (js ''not-an-email''),
               js ''message'' \<mapsto> JStr []]"
  have f: "get_prop ?bad (js ''name'') = JStr []"
    "get_prop ?bad (js ''email'') = JStr (js ''not-an-email'')"
    "get_prop ?bad (js ''message'') = JStr []"
    by (simp_all add: get_prop_def js_keys_distinct)
  have "\<not> email_ok g (js ''not-an-email'')"
    by (simp add: email_ok_def at_sign_def js_def)
  moreover have "js ''not-an-email'' \<noteq> []" by (simp add: js_def)
  ultimately have s: "validate g contactSchema (Some ?bad)
      = Invalid [\<lparr>d_message = StringEmpty, d_path = [js ''name'']\<rparr>,
                 \<lparr>d_message = StringEmail, d_path = [js ''email'']\<rparr>,
                 \<lparr>d_message = StringEmpty, d_path = [js ''message'']\<rparr>]"
    by (simp add: validate_def contactSchema_def key_details_def f map_filter_simps)
  from v p h s show ?thesis by blast
qed

text \<open>The theorem at the spec's scenario: the response is 400 with the three entries.\<close>

theorem validation_collects_all_witness:
  "contact_handler env_unset lenient simulate_sink
     \<lparr>xff = None, remoteAddress = None,
      body = Some [js ''name'' \<mapsto> JStr [], js ''email'' \<mapsto> JStr (js ''not-an-email''),
                   js ''message'' \<mapsto> JStr []]\<rparr>
   = \<lparr>response = Some \<lparr>status = 400, json = ValidationErrorBody
        [\<lparr>d_message = StringEmpty, d_path = [js ''name'']\<rparr>,
         \<lparr>d_message = StringEmail, d_path = [js ''email'']\<rparr>,
         \<lparr>d_message = StringEmpty, d_path = [js ''message'']\<rparr>]\<rparr>,
      sink_calls = []\<rparr>"
proof -
  let ?obj = "[js ''name'' \<mapsto> JStr [], js ''email'' \<mapsto> JStr (js ''not-an-email''),
               js ''message'' \<mapsto> JStr []]"
  let ?req = "\<lparr>xff = None, remoteAddress = None, body = Some ?obj\<rparr>"
  have b: "body ?req = Some ?obj" by simp
  have "?obj (js ''website'') = None" by (simp add: js_def)
  then have h: "honeypot_triggered (honeypotField env_unset) (body ?req) = Inr False"
    by (simp add: honeypot_triggered_def honeypot_default website_not_inherited)
  have "\<not> field_ok lenient ?obj (js ''name'')"
    by (simp add: field_ok_def get_prop_def js_keys_distinct)
  then have n: "filter (\<lambda>k. \<not> field_ok lenient ?obj k) [js ''name'', js ''email'', js ''message''] \<noteq> []"
    by simp
  from validation_collects_all [OF b h n, of simulate_sink] show ?thesis
    by auto
qed

text \<open>
  C6. The handler invokes the sink at most once per request (there is no retry). If
  that call throws or rejects, the response is 500 with the fixed body
  \<open>{ error: "send_failed" }\<close>, whatever the error was: nothing of the provider's error
  enters the response.
\<close>

theorem sink_failure_is_generic:
  "length (sink_calls (fst (contact_route e g sink st now req))) \<le> 1
   \<and> (\<forall>p err. sink_calls (fst (contact_route e g sink st now req)) = [p] \<and> sink p = Rejected err
        \<longrightarrow> response (fst (contact_route e g sink st now req))
            = Some \<lparr>status = 500, json = ErrorBody (js ''send_failed'')\<rparr>)"
proof (cases "admitted e st now req")
  case False
  then show ?thesis by (simp add: route_cases admitted_def)
next
  case True
  then have r: "fst (contact_route e g sink st now req) = contact_handler e g sink req"
    by (simp add: route_cases admitted_def)
  from handler_sink_calls [of e g sink req] show ?thesis
  proof
    assume "sink_calls (contact_handler e g sink req) = []"
    with r show ?thesis by simp
  next
    assume "\<exists>v p. validate g contactSchema (body req) = Valid (Some v) \<and> sanitizeInput v = Inr p
        \<and> contact_handler e g sink req =
            (case sink p of
               Resolved r \<Rightarrow>
                 \<lparr>response = Some \<lparr>status = 202, json = SuccessBody (result_id r)\<rparr>,
                  sink_calls = [p]\<rparr>
             | Rejected err \<Rightarrow>
                 \<lparr>response = Some \<lparr>status = 500, json = ErrorBody (js ''send_failed'')\<rparr>,
                  sink_calls = [p]\<rparr>)"
    then obtain p where "contact_handler e g sink req =
            (case sink p of
               Resolved r \<Rightarrow>
                 \<lparr>response = Some \<lparr>status = 202, json = SuccessBody (result_id r)\<rparr>,
                  sink_calls = [p]\<rparr>
             | Rejected err \<Rightarrow>
                 \<lparr>response = Some \<lparr>status = 500, json = ErrorBody (js ''send_failed'')\<rparr>,
                  sink_calls = [p]\<rparr>)"
      by blast
    with r show ?thesis by (cases "sink p") auto
  qed
qed

text \<open>
  The theorem at the spec's scenario with a sink that rejects with a provider's text.
\<close>

theorem sink_failure_is_generic_witness:
  "fst (contact_route env_unset lenient (\<lambda>p. Rejected (Some (js ''535 Authentication failed'')))
     Map.empty 0 jane)
   = \<lparr>response = Some \<lparr>status = 500, json = ErrorBody (js ''send_failed'')\<rparr>,
      sink_calls = [jane_payload]\<rparr>"
proof -
  let ?sink = "\<lambda>p::clean. Rejected (Some (js ''535 Authentication failed''))"
  let ?out = "fst (contact_route env_unset lenient ?sink Map.empty 0 jane)"
  have a: "admitted env_unset Map.empty 0 jane"
    by (simp add: admitted_def consume_def live_entry_def points_def env_unset_def)
  have "sink_calls (contact_handler env_unset lenient ?sink jane)
      = sink_calls (contact_handler env_unset lenient simulate_sink jane)"
    by (simp add: contact_handler_def simulate_sink_def
        split: sum.splits bool.splits validation.splits option.splits)
  then have c: "sink_calls ?out = [jane_payload]"
    using a by (simp add: route_cases admitted_def jane_handled)
  with sink_failure_is_generic [of env_unset lenient ?sink Map.empty 0 jane]
  have "response ?out = Some \<lparr>status = 500, json = ErrorBody (js ''send_failed'')\<rparr>"
    by simp
  with c show ?thesis by (cases ?out) simp
qed

section \<open>The rate limiter\<close>

lemma consume_fresh:
  assumes "live_entry st key now = None"
  shows "consume pts dur now st key =
    (1 \<le> pts, st(key \<mapsto> \<lparr>consumedPoints = 1,
                           expiresAt = (if 0 < dur then Some (now + dur * 1000) else None)\<rparr>))"
  using assms by (simp add: consume_def)

lemma consume_live:
  assumes "live_entry st key now = Some en"
  shows "consume pts dur now st key =
    (consumedPoints en + 1 \<le> pts, st(key \<mapsto> en\<lparr>consumedPoints := consumedPoints en + 1\<rparr>))"
  using assms by (simp add: consume_def)

lemma consume_other_key: "k \<noteq> key \<Longrightarrow> snd (consume pts dur now st key) k = st k"
  by (simp add: consume_def Let_def)

lemma middleware_live:
  assumes "live_entry st (client_key (trustProxy e) req) now = Some en"
  shows "rateLimiterMiddleware e st now req inner =
    (if consumedPoints en < points e then inner else rate_limited,
     st(client_key (trustProxy e) req \<mapsto> en\<lparr>consumedPoints := consumedPoints en + 1\<rparr>))"
  using consume_live [OF assms, of "points e" "duration e"]
  by (auto simp: rateLimiterMiddleware_def rate_limited_def)

lemma middleware_fresh:
  assumes "live_entry st (client_key (trustProxy e) req) now = None"
  shows "rateLimiterMiddleware e st now req inner =
    (if 0 < points e then inner else rate_limited,
     st(client_key (trustProxy e) req \<mapsto> \<lparr>consumedPoints = 1,
          expiresAt = (if 0 < duration e then Some (now + duration e * 1000) else None)\<rparr>))"
  using consume_fresh [OF assms, of "points e" "duration e"]
  by (auto simp: rateLimiterMiddleware_def rate_limited_def)

lemma middleware_other_key:
  "k \<noteq> client_key (trustProxy e) req \<Longrightarrow> snd (rateLimiterMiddleware e st now req inner) k = st k"
  using consume_other_key [of k "client_key (trustProxy e) req" "points e" "duration e" now st]
  by (auto simp: rateLimiterMiddleware_def split: prod.splits bool.splits)

text \<open>Calls inside a running window: the counter goes up by one each time.\<close>

lemma middleware_seq_in_window:
  assumes "st key = Some \<lparr>consumedPoints = c, expiresAt = Some x\<rparr>"
    and "\<forall>call\<in>set cs. client_key (trustProxy e) (fst (snd call)) = key \<and> fst call < x"
  shows "fst (middleware_seq e st cs)
      = map (\<lambda>(j, call). if j < points e then snd (snd call) else rate_limited) (enumerate c cs)
    \<and> snd (middleware_seq e st cs) key
        = Some \<lparr>consumedPoints = c + length cs, expiresAt = Some x\<rparr>"
  using assms
proof (induction cs arbitrary: st c)
  case Nil
  then show ?case by simp
next
  case (Cons call cs)
  obtain now req inner where call: "call = (now, req, inner)" by (cases call) auto
  let ?en = "\<lparr>consumedPoints = c, expiresAt = Some x\<rparr>"
  let ?st = "st(key \<mapsto> ?en\<lparr>consumedPoints := c + 1\<rparr>)"
  from Cons.prems call have k: "client_key (trustProxy e) req = key" and "now < x" by simp_all
  with Cons.prems have "live_entry st (client_key (trustProxy e) req) now = Some ?en"
    by (simp add: live_entry_def)
  from middleware_live [OF this, of inner] k
  have step: "rateLimiterMiddleware e st now req inner
      = (if c < points e then inner else rate_limited, ?st)" by simp
  have "?st key = Some \<lparr>consumedPoints = Suc c, expiresAt = Some x\<rparr>" by simp
  moreover from Cons.prems
  have "\<forall>call\<in>set cs. client_key (trustProxy e) (fst (snd call)) = key \<and> fst call < x" by simp
  ultimately have ih:
    "fst (middleware_seq e ?st cs)
      = map (\<lambda>(j, call). if j < points e then snd (snd call) else rate_limited) (enumerate (Suc c) cs)
     \<and> snd (middleware_seq e ?st cs) key
        = Some \<lparr>consumedPoints = Suc c + length cs, expiresAt = Some x\<rparr>"
    by (rule Cons.IH)
  from step ih show ?case
    by (simp add: call split_beta)
qed

lemma middleware_seq_new_window:
  assumes "live_entry st key t0 = None" and "0 < duration e"
    and "client_key (trustProxy e) r0 = key"
    and "\<forall>call\<in>set cs. client_key (trustProxy e) (fst (snd call)) = key
          \<and> fst call < t0 + duration e * 1000"
  shows "fst (middleware_seq e st ((t0, r0, i0) # cs))
      = map (\<lambda>(j, call). if j < points e then snd (snd call) else rate_limited)
          (enumerate 0 ((t0, r0, i0) # cs))
    \<and> snd (middleware_seq e st ((t0, r0, i0) # cs)) key
        = Some \<lparr>consumedPoints = length cs + 1, expiresAt = Some (t0 + duration e * 1000)\<rparr>"
proof -
  let ?st = "st(key \<mapsto> \<lparr>consumedPoints = 1, expiresAt = Some (t0 + duration e * 1000)\<rparr>)"
  from assms(1,3) have "live_entry st (client_key (trustProxy e) r0) t0 = None" by simp
  from middleware_fresh [OF this, of i0] assms(2,3)
  have step: "rateLimiterMiddleware e st t0 r0 i0
      = (if 0 < points e then i0 else rate_limited, ?st)" by simp
  have "?st key = Some \<lparr>consumedPoints = 1, expiresAt = Some (t0 + duration e * 1000)\<rparr>" by simp
  with middleware_seq_in_window [of ?st key 1 "t0 + duration e * 1000" cs e] assms(4)
  have rest: "fst (middleware_seq e ?st cs)
      = map (\<lambda>(j, call). if j < points e then snd (snd call) else rate_limited) (enumerate 1 cs)
    \<and> snd (middleware_seq e ?st cs) key
        = Some \<lparr>consumedPoints = 1 + length cs, expiresAt = Some (t0 + duration e * 1000)\<rparr>"
    by blast
  from step rest show ?thesis
    by (simp add: split_beta)
qed

text \<open>
  C3. For every client key the limiter counts in fixed windows, by default 5 calls per
  60 seconds, and the middleware records every call it sees. A call that finds no
  running window for its key (the key's first call, or the first call at or after the
  end of its window) starts a window at its own time, with the counter at one; a call
  inside a running window adds one to the counter. Of the calls of one key from the
  start of a window to its end, each of the first \<open>capacity\<close> gets the handler's
  outcome and every further one is answered 429 \<open>{ error: "rate_limited" }\<close> without
  the handler running; the counter has counted all of them; and the first call at or
  after the end of the window starts a new window and is allowed again (for a capacity
  of at least one). Calls of other keys leave a key's counter alone.
\<close>

theorem fixed_window_limiter:
  "(RATE_LIMIT_POINTS e = None \<longrightarrow> points e = 5)
   \<and> (RATE_LIMIT_DURATION e = None \<longrightarrow> duration e = 60)
   \<and> rate_limited = \<lparr>response = Some \<lparr>status = 429, json = ErrorBody (js ''rate_limited'')\<rparr>,
                        sink_calls = []\<rparr>
   \<and> (st key = None \<longrightarrow> live_entry st key now = None)
   \<and> (st key = Some en \<and> expiresAt en = Some x \<and> x \<le> now \<longrightarrow> live_entry st key now = None)
   \<and> (st key = Some en \<and> expiresAt en = Some x \<and> now < x \<longrightarrow> live_entry st key now = Some en)
   \<and> (live_entry st (client_key (trustProxy e) req) now = None \<and> 0 < duration e \<longrightarrow>
        rateLimiterMiddleware e st now req inner =
          (if 0 < points e then inner else rate_limited,
           st(client_key (trustProxy e) req \<mapsto>
                \<lparr>consumedPoints = 1, expiresAt = Some (now + duration e * 1000)\<rparr>)))
   \<and> (live_entry st (client_key (trustProxy e) req) now = Some en \<longrightarrow>
        rateLimiterMiddleware e st now req inner =
          (if consumedPoints en < points e then inner else rate_limited,
           st(client_key (trustProxy e) req \<mapsto> en\<lparr>consumedPoints := consumedPoints en + 1\<rparr>)))
   \<and> (k \<noteq> client_key (trustProxy e) req \<longrightarrow>
        snd (rateLimiterMiddleware e st now req inner) k = st k)
   \<and> (live_entry st key t0 = None \<and> 0 < duration e \<and> client_key (trustProxy e) r0 = key
        \<and> (\<forall>call\<in>set cs. client_key (trustProxy e) (fst (snd call)) = key
              \<and> fst call < t0 + duration e * 1000) \<longrightarrow>
        fst (middleware_seq e st ((t0, r0, i0) # cs))
          = map (\<lambda>(j, call). if j < points e then snd (snd call) else rate_limited)
              (enumerate 0 ((t0, r0, i0) # cs))
        \<and> snd (middleware_seq e st ((t0, r0, i0) # cs)) key
            = Some \<lparr>consumedPoints = length cs + 1, expiresAt = Some (t0 + duration e * 1000)\<rparr>
        \<and> (\<forall>t' r' i'. t0 + duration e * 1000 \<le> t' \<and> client_key (trustProxy e) r' = key \<longrightarrow>
              rateLimiterMiddleware e (snd (middleware_seq e st ((t0, r0, i0) # cs))) t' r' i' =
                (if 0 < points e then i' else rate_limited,
                 (snd (middleware_seq e st ((t0, r0, i0) # cs)))(key \<mapsto>
                    \<lparr>consumedPoints = 1, expiresAt = Some (t' + duration e * 1000)\<rparr>))))"
proof -
  have c1: "RATE_LIMIT_POINTS e = None \<longrightarrow> points e = 5" by (simp add: points_def)
  have c2: "RATE_LIMIT_DURATION e = None \<longrightarrow> duration e = 60" by (simp add: duration_def)
  have c3: "rate_limited = \<lparr>response = Some \<lparr>status = 429, json = ErrorBody (js ''rate_limited'')\<rparr>,
                        sink_calls = []\<rparr>"
    by (simp add: rate_limited_def)
  have c4: "st key = None \<longrightarrow> live_entry st key now = None" by (simp add: live_entry_def)
  have c5: "st key = Some en \<and> expiresAt en = Some x \<and> x \<le> now \<longrightarrow> live_entry st key now = None"
    by (simp add: live_entry_def)
  have c6: "st key = Some en \<and> expiresAt en = Some x \<and> now < x \<longrightarrow> live_entry st key now = Some en"
    by (simp add: live_entry_def)
  have c7: "live_entry st (client_key (trustProxy e) req) now = None \<and> 0 < duration e \<longrightarrow>
        rateLimiterMiddleware e st now req inner =
          (if 0 < points e then inner else rate_limited,
           st(client_key (trustProxy e) req \<mapsto>
                \<lparr>consumedPoints = 1, expiresAt = Some (now + duration e * 1000)\<rparr>))"
    using middleware_fresh [of st e req now inner] by simp
  have c8: "live_entry st (client_key (trustProxy e) req) now = Some en \<longrightarrow>
        rateLimiterMiddleware e st now req inner =
          (if consumedPoints en < points e then inner else rate_limited,
           st(client_key (trustProxy e) req \<mapsto> en\<lparr>consumedPoints := consumedPoints en + 1\<rparr>))"
    using middleware_live [of st e req now en inner] by simp
  have c9: "k \<noteq> client_key (trustProxy e) req \<longrightarrow>
        snd (rateLimiterMiddleware e st now req inner) k = st k"
    by (simp add: middleware_other_key)
  have c10: "live_entry st key t0 = None \<and> 0 < duration e \<and> client_key (trustProxy e) r0 = key
        \<and> (\<forall>call\<in>set cs. client_key (trustProxy e) (fst (snd call)) = key
              \<and> fst call < t0 + duration e * 1000) \<longrightarrow>
        fst (middleware_seq e st ((t0, r0, i0) # cs))
          = map (\<lambda>(j, call). if j < points e then snd (snd call) else rate_limited)
              (enumerate 0 ((t0, r0, i0) # cs))
        \<and> snd (middleware_seq e st ((t0, r0, i0) # cs)) key
            = Some \<lparr>consumedPoints = length cs + 1, expiresAt = Some (t0 + duration e * 1000)\<rparr>
        \<and> (\<forall>t' r' i'. t0 + duration e * 1000 \<le> t' \<and> client_key (trustProxy e) r' = key \<longrightarrow>
              rateLimiterMiddleware e (snd (middleware_seq e st ((t0, r0, i0) # cs))) t' r' i' =
                (if 0 < points e then i' else rate_limited,
                 (snd (middleware_seq e st ((t0, r0, i0) # cs)))(key \<mapsto>
                    \<lparr>consumedPoints = 1, expiresAt = Some (t' + duration e * 1000)\<rparr>)))"
  proof (intro impI)
    assume h: "live_entry st key t0 = None \<and> 0 < duration e \<and> client_key (trustProxy e) r0 = key
        \<and> (\<forall>call\<in>set cs. client_key (trustProxy e) (fst (snd call)) = key
              \<and> fst call < t0 + duration e * 1000)"
    let ?st = "snd (middleware_seq e st ((t0, r0, i0) # cs))"
    from h middleware_seq_new_window [of st key t0 e r0 cs i0]
    have s: "fst (middleware_seq e st ((t0, r0, i0) # cs))
          = map (\<lambda>(j, call). if j < points e then snd (snd call) else rate_limited)
              (enumerate 0 ((t0, r0, i0) # cs))"
      and w: "?st key
            = Some \<lparr>consumedPoints = length cs + 1, expiresAt = Some (t0 + duration e * 1000)\<rparr>"
      by blast+
    have a: "rateLimiterMiddleware e ?st t' r' i' =
                (if 0 < points e then i' else rate_limited,
                 ?st(key \<mapsto> \<lparr>consumedPoints = 1, expiresAt = Some (t' + duration e * 1000)\<rparr>))"
      if "t0 + duration e * 1000 \<le> t' \<and> client_key (trustProxy e) r' = key" for t' r' i'
    proof -
      from that w have "live_entry ?st (client_key (trustProxy e) r') t' = None"
        by (simp add: live_entry_def)
      from middleware_fresh [OF this, of i'] that h show ?thesis by simp
    qed
    from s w a show "fst (middleware_seq e st ((t0, r0, i0) # cs))
          = map (\<lambda>(j, call). if j < points e then snd (snd call) else rate_limited)
              (enumerate 0 ((t0, r0, i0) # cs))
        \<and> ?st key
            = Some \<lparr>consumedPoints = length cs + 1, expiresAt = Some (t0 + duration e * 1000)\<rparr>
        \<and> (\<forall>t' r' i'. t0 + duration e * 1000 \<le> t' \<and> client_key (trustProxy e) r' = key \<longrightarrow>
              rateLimiterMiddleware e ?st t' r' i' =
                (if 0 < points e then i' else rate_limited,
                 ?st(key \<mapsto> \<lparr>consumedPoints = 1, expiresAt = Some (t' + duration e * 1000)\<rparr>)))"
      by blast
  qed
  from c1 c2 c3 c4 c5 c6 c7 c8 c9 c10 show ?thesis by (intro conjI)
qed

text \<open>
  The theorem at the defaults: seven requests of one client in its first minute, five
  handled and two answered 429, the counter at seven and the window ending at 60000 ms;
  the request at 60000 ms is handled again.
\<close>

theorem fixed_window_limiter_witness:
  "fst (middleware_seq env_unset Map.empty
          [(0, jane, jane_outcome), (1000, jane, jane_outcome), (2000, jane, jane_outcome),
           (3000, jane, jane_outcome), (4000, jane, jane_outcome), (5000, jane, jane_outcome),
           (59999, jane, jane_outcome)])
     = [jane_outcome, jane_outcome, jane_outcome, jane_outcome, jane_outcome,
        rate_limited, rate_limited]
   \<and> snd (middleware_seq env_unset Map.empty
          [(0, jane, jane_outcome), (1000, jane, jane_outcome), (2000, jane, jane_outcome),
           (3000, jane, jane_outcome), (4000, jane, jane_outcome), (5000, jane, jane_outcome),
           (59999, jane, jane_outcome)])
         (client_key (trustProxy env_unset) jane)
     = Some \<lparr>consumedPoints = 7, expiresAt = Some 60000\<rparr>
   \<and> fst (rateLimiterMiddleware env_unset
         (snd (middleware_seq env_unset Map.empty
          [(0, jane, jane_outcome), (1000, jane, jane_outcome), (2000, jane, jane_outcome),
           (3000, jane, jane_outcome), (4000, jane, jane_outcome), (5000, jane, jane_outcome),
           (59999, jane, jane_outcome)]))
         60000 jane jane_outcome)
     = jane_outcome"
proof -
  let ?k = "client_key (trustProxy env_unset) jane"
  let ?cs = "[(1000, jane, jane_outcome), (2000, jane, jane_outcome), (3000, jane, jane_outcome),
              (4000, jane, jane_outcome), (5000, jane, jane_outcome), (59999::nat, jane, jane_outcome)]"
  have p: "points env_unset = 5" and d: "duration env_unset = 60"
    by (simp_all add: points_def duration_def env_unset_def)
  have a: "live_entry Map.empty ?k 0 = None" by (simp add: live_entry_def)
  have b: "\<forall>call\<in>set ?cs. client_key (trustProxy env_unset) (fst (snd call)) = ?k
              \<and> fst call < 0 + duration env_unset * 1000"
    by (simp add: d)
  have H: "live_entry Map.empty ?k 0 = None \<and> 0 < duration env_unset
      \<and> client_key (trustProxy env_unset) jane = ?k
      \<and> (\<forall>call\<in>set ?cs. client_key (trustProxy env_unset) (fst (snd call)) = ?k
              \<and> fst call < 0 + duration env_unset * 1000)"
  proof (intro conjI)
    show "live_entry Map.empty ?k 0 = None" by (rule a)
    show "0 < duration env_unset" by (simp add: d)
    show "client_key (trustProxy env_unset) jane = ?k" by (rule refl)
    show "\<forall>call\<in>set ?cs. client_key (trustProxy env_unset) (fst (snd call)) = ?k
              \<and> fst call < 0 + duration env_unset * 1000" by (rule b)
  qed
  note T = fixed_window_limiter [of env_unset Map.empty ?k _ _ _ _ _ _ 0 jane ?cs jane_outcome,
      THEN conjunct2, THEN conjunct2, THEN conjunct2, THEN conjunct2, THEN conjunct2,
      THEN conjunct2, THEN conjunct2, THEN conjunct2, THEN conjunct2, THEN mp, OF H]
  from T have
    s: "fst (middleware_seq env_unset Map.empty ((0, jane, jane_outcome) # ?cs))
          = map (\<lambda>(j, call). if j < points env_unset then snd (snd call) else rate_limited)
              (enumerate 0 ((0, jane, jane_outcome) # ?cs))"
    and w: "snd (middleware_seq env_unset Map.empty ((0, jane, jane_outcome) # ?cs)) ?k
          = Some \<lparr>consumedPoints = length ?cs + 1, expiresAt = Some (0 + duration env_unset * 1000)\<rparr>"
    and n: "\<forall>t' r' i'. 0 + duration env_unset * 1000 \<le> t' \<and> client_key (trustProxy env_unset) r' = ?k \<longrightarrow>
              rateLimiterMiddleware env_unset
                (snd (middleware_seq env_unset Map.empty ((0, jane, jane_outcome) # ?cs))) t' r' i' =
                (if 0 < points env_unset then i' else rate_limited,
                 (snd (middleware_seq env_unset Map.empty ((0, jane, jane_outcome) # ?cs)))(?k \<mapsto>
                    \<lparr>consumedPoints = 1, expiresAt = Some (t' + duration env_unset * 1000)\<rparr>))"
    by blast+
  have s': "fst (middleware_seq env_unset Map.empty ((0, jane, jane_outcome) # ?cs))
      = [jane_outcome, jane_outcome, jane_outcome, jane_outcome, jane_outcome,
         rate_limited, rate_limited]"
    unfolding s p by (simp add: enumerate_eq_zip upt_conv_Cons)
  have w': "snd (middleware_seq env_unset Map.empty ((0, jane, jane_outcome) # ?cs)) ?k
      = Some \<lparr>consumedPoints = 7, expiresAt = Some 60000\<rparr>"
    unfolding w d by simp
  have q: "0 + duration env_unset * 1000 \<le> 60000 \<and> client_key (trustProxy env_unset) jane = ?k"
    by (simp add: d)
  from n [rule_format, OF q, of jane_outcome] have n': "fst (rateLimiterMiddleware env_unset
      (snd (middleware_seq env_unset Map.empty ((0, jane, jane_outcome) # ?cs))) 60000 jane jane_outcome)
      = jane_outcome"
    unfolding p by simp
  from s' w' n' show ?thesis by blast
qed

section \<open>The client key\<close>

lemma forwarded_parse_nonempty: "a \<in> set (forwarded_parse h) \<Longrightarrow> a \<noteq> []"
  by (auto simp: forwarded_parse_def)

lemma forwarded_parse_empty: "forwarded_parse [] = []"
  by (simp add: forwarded_parse_def strip_spaces_def)

lemma client_key_untrusted:
  "client_key False req = or_else (remoteAddress req) (or_else (xff req) (js ''global''))"
  by (simp add: client_key_def req_ip_def or_else_def split: option.splits)

lemma split_commas_nonempty: "split_commas s \<noteq> []"
  by (induction s) (auto split: list.splits)

lemma split_commas_append:
  "split_commas (xs @ comma # ys) = split_commas xs @ split_commas ys"
proof (induction xs)
  case Nil
  then show ?case by simp
next
  case (Cons c xs)
  obtain w ws where w: "split_commas xs = w # ws"
    using split_commas_nonempty [of xs] by (cases "split_commas xs") auto
  with Cons show ?case by simp
qed

lemma split_commas_single: "comma \<notin> set t \<Longrightarrow> split_commas t = [t]"
  by (induction t) auto

lemma dropWhile_spaces:
  "dropWhile (\<lambda>c. c = SP) (replicate n SP @ ys) = dropWhile (\<lambda>c. c = SP) ys"
  by (induction n) simp_all

lemma strip_spaces_padded:
  assumes "a \<noteq> []" and "hd a \<noteq> SP" and "last a \<noteq> SP"
  shows "strip_spaces (replicate n SP @ a @ replicate m SP) = a"
proof -
  from assms obtain x xs where a: "a = x # xs" and x: "x \<noteq> SP" by (cases a) auto
  have "dropWhile (\<lambda>c. c = SP) (a @ replicate m SP) = a @ replicate m SP"
    using a x by simp
  then have d: "dropWhile (\<lambda>c. c = SP) (replicate n SP @ a @ replicate m SP) = a @ replicate m SP"
    by (simp only: dropWhile_spaces)
  obtain y ys where r: "rev a = y # ys" using assms(1) by (cases "rev a") auto
  have "hd (rev a) = last a" using assms(1) by (simp add: hd_rev)
  with r assms(3) have "y \<noteq> SP" by simp
  with r have "dropWhile (\<lambda>c. c = SP) (rev a) = rev a" by simp
  then have "dropWhile (\<lambda>c. c = SP) (replicate m SP @ rev a) = rev a"
    by (simp only: dropWhile_spaces)
  then have "dropWhile (\<lambda>c. c = SP) (rev (a @ replicate m SP)) = rev a"
    by simp
  with d show ?thesis by (simp add: strip_spaces_def)
qed

lemma forwarded_parse_last:
  assumes "comma \<notin> set t" and "strip_spaces t \<noteq> []"
  shows "forwarded_parse (pre @ comma # t) = strip_spaces t # forwarded_parse pre"
    and "forwarded_parse t = [strip_spaces t]"
  using assms by (simp_all add: forwarded_parse_def split_commas_append split_commas_single)

lemma padded_no_comma: "comma \<notin> set a \<Longrightarrow> comma \<notin> set (replicate n SP @ a @ replicate m SP)"
  by (auto simp: comma_def SP_def)

lemma client_key_trusted_entry:
  assumes "forwarded_parse (or_else (xff req) []) = a # as"
  shows "client_key True req = a"
proof -
  from assms have "a \<in> set (forwarded_parse (or_else (xff req) []))" by simp
  then have "a \<noteq> []" by (rule forwarded_parse_nonempty)
  with assms show ?thesis by (simp add: client_key_def req_ip_def or_else_def)
qed

lemma client_key_last_entry:
  assumes "a \<noteq> []" and "comma \<notin> set a" and "hd a \<noteq> SP" and "last a \<noteq> SP"
    and "xff req = Some (pre @ comma # replicate n SP @ a @ replicate m SP)
         \<or> xff req = Some (replicate n SP @ a @ replicate m SP)"
  shows "client_key True req = a"
proof -
  let ?t = "replicate n SP @ a @ replicate m SP"
  have s: "strip_spaces ?t = a" by (rule strip_spaces_padded [OF assms(1,3,4)])
  have c: "comma \<notin> set ?t" by (rule padded_no_comma [OF assms(2)])
  from s assms(1) have ne: "strip_spaces ?t \<noteq> []" by simp
  from assms(5) show ?thesis
  proof
    assume x: "xff req = Some (pre @ comma # ?t)"
    then have "or_else (xff req) [] = pre @ comma # ?t" by (simp add: or_else_def)
    with forwarded_parse_last(1) [OF c ne, of pre] s
    have "forwarded_parse (or_else (xff req) []) = a # forwarded_parse pre" by simp
    then show ?thesis by (rule client_key_trusted_entry)
  next
    assume x: "xff req = Some ?t"
    from assms(1) have "?t \<noteq> []" by simp
    with x have "or_else (xff req) [] = ?t" by (simp add: or_else_def)
    with forwarded_parse_last(2) [OF c ne] s
    have "forwarded_parse (or_else (xff req) []) = a # []" by simp
    then show ?thesis by (rule client_key_trusted_entry)
  qed
qed

text \<open>
  C7 (as amended). The rate-limit client key is the first non-empty of \<open>req.ip\<close>, the
  raw \<open>X-Forwarded-For\<close> header, the address of the connection and the constant
  \<open>global\<close>. Proxy trust is decided by \<open>TRUST_PROXY\<close> when that is set and not empty,
  otherwise by \<open>REACT_APP_TRUST_PROXY\<close> when that is set and not empty: it is on when
  the deciding variable is \<open>1\<close>, off when it is anything else, and on when neither is
  set: it is on by default. With trust on, the key is the last entry of the header (the
  entries are separated by commas and stripped of spaces) when the header has one, and
  otherwise as with trust off. With trust off, the key is the address of the
  connection when there is one; the raw header is used when there is none; and the
  constant bucket is used only when there is neither address nor header.
\<close>

theorem client_key_derivation:
  "(or_else (TRUST_PROXY e) [] = [] \<and> or_else (REACT_APP_TRUST_PROXY e) [] = [] \<longrightarrow> trustProxy e)
   \<and> (TRUST_PROXY e = Some s \<and> s \<noteq> [] \<longrightarrow> trustProxy e = (s = js ''1''))
   \<and> (or_else (TRUST_PROXY e) [] = [] \<and> REACT_APP_TRUST_PROXY e = Some s \<and> s \<noteq> []
        \<longrightarrow> trustProxy e = (s = js ''1''))
   \<and> client_key False req = or_else (remoteAddress req) (or_else (xff req) (js ''global''))
   \<and> (\<forall>a as. forwarded_parse (or_else (xff req) []) = a # as \<longrightarrow> client_key True req = a)
   \<and> (\<forall>a pre n m. a \<noteq> [] \<and> comma \<notin> set a \<and> hd a \<noteq> SP \<and> last a \<noteq> SP
        \<and> (xff req = Some (pre @ comma # replicate n SP @ a @ replicate m SP)
            \<or> xff req = Some (replicate n SP @ a @ replicate m SP))
        \<longrightarrow> client_key True req = a)
   \<and> (forwarded_parse (or_else (xff req) []) = [] \<longrightarrow> client_key True req = client_key False req)
   \<and> (or_else (remoteAddress req) [] = [] \<and> or_else (xff req) [] = []
        \<longrightarrow> client_key (trustProxy e) req = js ''global'')"
proof -
  have a: "or_else (TRUST_PROXY e) [] = [] \<and> or_else (REACT_APP_TRUST_PROXY e) [] = [] \<longrightarrow> trustProxy e"
    by (auto simp: trustProxy_def or_else_def split: option.splits if_splits)
  have b: "TRUST_PROXY e = Some s \<and> s \<noteq> [] \<longrightarrow> trustProxy e = (s = js ''1'')"
    by (auto simp: trustProxy_def or_else_def)
  have b': "or_else (TRUST_PROXY e) [] = [] \<and> REACT_APP_TRUST_PROXY e = Some s \<and> s \<noteq> []
        \<longrightarrow> trustProxy e = (s = js ''1'')"
    by (auto simp: trustProxy_def or_else_def split: option.splits if_splits)
  have c: "client_key False req = or_else (remoteAddress req) (or_else (xff req) (js ''global''))"
    by (rule client_key_untrusted)
  have d: "\<forall>a as. forwarded_parse (or_else (xff req) []) = a # as \<longrightarrow> client_key True req = a"
    using client_key_trusted_entry by blast
  have d': "\<forall>a pre n m. a \<noteq> [] \<and> comma \<notin> set a \<and> hd a \<noteq> SP \<and> last a \<noteq> SP
        \<and> (xff req = Some (pre @ comma # replicate n SP @ a @ replicate m SP)
            \<or> xff req = Some (replicate n SP @ a @ replicate m SP))
        \<longrightarrow> client_key True req = a"
    using client_key_last_entry by blast
  have f: "forwarded_parse (or_else (xff req) []) = [] \<longrightarrow> client_key True req = client_key False req"
    by (simp add: client_key_def req_ip_def)
  have g: "or_else (remoteAddress req) [] = [] \<and> or_else (xff req) [] = []
        \<longrightarrow> client_key (trustProxy e) req = js ''global''"
    by (auto simp: client_key_def req_ip_def or_else_def forwarded_parse_empty
        split: option.splits if_splits)
  from a b b' c d d' f g show ?thesis by (intro conjI)
qed

text \<open>
  The theorem with \<open>TRUST_PROXY=0\<close>: a client that sends a header of its own is
  still keyed by the address of its connection. And with \<open>REACT_APP_TRUST_PROXY=1\<close>
  alone, trust is on and the key is the last entry of the header.
\<close>

theorem client_key_derivation_witness:
  "\<not> trustProxy (env_unset\<lparr>TRUST_PROXY := Some (js ''0'')\<rparr>)
   \<and> client_key (trustProxy (env_unset\<lparr>TRUST_PROXY := Some (js ''0'')\<rparr>))
        \<lparr>xff = Some (js ''6.6.6.6''), remoteAddress = Some (js ''203.0.113.7''), body = None\<rparr>
     = js ''203.0.113.7''
   \<and> trustProxy (env_unset\<lparr>REACT_APP_TRUST_PROXY := Some (js ''1'')\<rparr>)
   \<and> client_key True
        \<lparr>xff = Some (js ''1.1.1.1'' @ comma # replicate 1 SP @ js ''6.6.6.6'' @ replicate 0 SP),
         remoteAddress = Some (js ''203.0.113.7''), body = None\<rparr>
     = js ''6.6.6.6''"
proof -
  let ?e = "env_unset\<lparr>TRUST_PROXY := Some (js ''0'')\<rparr>"
  let ?e' = "env_unset\<lparr>REACT_APP_TRUST_PROXY := Some (js ''1'')\<rparr>"
  let ?req = "\<lparr>xff = Some (js ''6.6.6.6''), remoteAddress = Some (js ''203.0.113.7''), body = None\<rparr>"
  let ?req' = "\<lparr>xff = Some (js ''1.1.1.1'' @ comma # replicate 1 SP @ js ''6.6.6.6'' @ replicate 0 SP),
         remoteAddress = Some (js ''203.0.113.7''), body = None\<rparr>"
  have t: "TRUST_PROXY ?e = Some (js ''0'')" by simp
  have n: "js ''0'' \<noteq> []" "js ''0'' \<noteq> js ''1''" by (simp_all add: js_def)
  note T = client_key_derivation [where e = ?e and s = "js ''0''" and req = ?req]
  from T t n have r: "\<not> trustProxy ?e" by blast
  from T have k: "client_key False ?req
      = or_else (remoteAddress ?req) (or_else (xff ?req) (js ''global''))"
    by blast
  have "or_else (remoteAddress ?req) (or_else (xff ?req) (js ''global'')) = js ''203.0.113.7''"
    by (simp add: or_else_def js_def)
  with r k have first: "\<not> trustProxy ?e \<and> client_key (trustProxy ?e) ?req = js ''203.0.113.7''"
    by simp
  have t': "or_else (TRUST_PROXY ?e') [] = []" "REACT_APP_TRUST_PROXY ?e' = Some (js ''1'')"
    "js ''1'' \<noteq> []"
    by (simp_all add: env_unset_def or_else_def js_def)
  note T' = client_key_derivation [where e = ?e' and s = "js ''1''" and req = ?req']
  from T' t' have second: "trustProxy ?e'" by blast
  have p: "js ''6.6.6.6'' \<noteq> []" "comma \<notin> set (js ''6.6.6.6'')" "hd (js ''6.6.6.6'') \<noteq> SP"
    "last (js ''6.6.6.6'') \<noteq> SP"
    by (simp_all add: js_def comma_def SP_def)
  have x: "xff ?req' = Some (js ''1.1.1.1'' @ comma # replicate 1 SP @ js ''6.6.6.6'' @ replicate 0 SP)"
    by simp
  from T' p x have third: "client_key True ?req' = js ''6.6.6.6''" by blast
  from first second third show ?thesis by blast
qed

text \<open>
  C7 as stated fails twice. With no variable set, proxy trust is on and the key is
  taken from the header the client sent. With trust switched off and no address of the
  connection at hand, the raw header is the key all the same.
\<close>

theorem client_key_derivation_counterexample:
  "trustProxy env_unset
   \<and> client_key (trustProxy env_unset)
        \<lparr>xff = Some (js ''1.1.1.1, 6.6.6.6''), remoteAddress = Some (js ''203.0.113.7''),
         body = None\<rparr>
     = js ''6.6.6.6''
   \<and> \<not> trustProxy (env_unset\<lparr>TRUST_PROXY := Some (js ''0'')\<rparr>)
   \<and> client_key (trustProxy (env_unset\<lparr>TRUST_PROXY := Some (js ''0'')\<rparr>))
        \<lparr>xff = Some (js ''6.6.6.6''), remoteAddress = None, body = None\<rparr>
     = js ''6.6.6.6''"
  by (simp add: trustProxy_def env_unset_def or_else_def client_key_def req_ip_def
      forwarded_parse_def strip_spaces_def comma_def SP_def js_def)

section \<open>The contact client\<close>

lemma try_block_ok:
  "try_block outc = Inr r \<Longrightarrow>
     ok r = (\<exists>resp. outc = Fulfilled resp \<and> 200 \<le> resp_status resp \<and> resp_status resp \<le> 299)
     \<and> (\<not> ok r \<longrightarrow> error r \<noteq> None)"
  by (cases outc) (auto simp: try_block_def Let_def split: if_splits sum.splits)

lemma try_block_throws:
  "try_block outc = Inl err \<Longrightarrow>
     \<not> (\<exists>resp. outc = Fulfilled resp \<and> 200 \<le> resp_status resp \<and> resp_status resp \<le> 299)"
  by (cases outc) (auto simp: try_block_def Let_def split: if_splits sum.splits)

lemma catch_block_not_ok: "\<not> ok (catch_block err) \<and> error (catch_block err) \<noteq> None"
  by (cases err) simp

lemma destructure_cases:
  "(arg = JUndefined \<or> arg = JNull) \<and> destructure arg = Inl destructure_error
   \<or> arg \<noteq> JUndefined \<and> arg \<noteq> JNull
     \<and> destructure arg =
         Inr (opt_member arg (js ''name''), opt_member arg (js ''email''),
              opt_member arg (js ''subject''), opt_member arg (js ''message''))"
  by (cases arg) simp_all

text \<open>
  C10 (as amended). For every argument other than \<open>undefined\<close> and \<open>null\<close> (an
  object with the fields of the form, as the parameter expects), \<open>sendContactMessage\<close>
  never throws: whatever the configuration and whatever the network does (reject,
  answer with a body that is not JSON or cannot be read, answer outside 2xx, even with
  a message that cannot be rendered), the promise resolves with an object whose \<open>ok\<close>
  is a boolean; \<open>ok\<close> is true exactly when the base URL is set and the response is
  2xx, and an object that is not \<open>ok\<close> carries an error text. When
  \<open>REACT_APP_CONTACT_API_URL\<close> is unset (or empty) the result is
  \<open>{ ok: false, error }\<close> with the configuration message and nothing is fetched.
  Called with \<open>undefined\<close>, \<open>null\<close> or no argument, the promise rejects with the
  TypeError of the parameter's destructuring, and nothing is fetched.
\<close>

theorem sendContactMessage_never_throws:
  "(arg \<noteq> JUndefined \<and> arg \<noteq> JNull \<longrightarrow>
      (\<exists>r. fst (sendContactMessage base net arg) = Inr r
         \<and> (ok r \<longleftrightarrow> (\<exists>s resp. base = Some s \<and> s \<noteq> []
                \<and> net (contact_url s)
                     (opt_member arg (js ''name''), opt_member arg (js ''email''),
                      opt_member arg (js ''subject''), opt_member arg (js ''message''))
                   = Fulfilled resp
                \<and> 200 \<le> resp_status resp \<and> resp_status resp \<le> 299))
         \<and> (\<not> ok r \<longrightarrow> error r \<noteq> None)
         \<and> (base = None \<or> base = Some [] \<longrightarrow>
              sendContactMessage base net arg
                = (Inr \<lparr>ok = False, error = Some config_error, data = None\<rparr>, []))))
   \<and> (arg = JUndefined \<or> arg = JNull \<longrightarrow>
        sendContactMessage base net arg = (Inl destructure_error, []))"
proof (intro conjI impI)
  assume "arg = JUndefined \<or> arg = JNull"
  then show "sendContactMessage base net arg = (Inl destructure_error, [])"
    by (auto simp: sendContactMessage_def)
next
  assume "arg \<noteq> JUndefined \<and> arg \<noteq> JNull"
  let ?fields = "(opt_member arg (js ''name''), opt_member arg (js ''email''),
                  opt_member arg (js ''subject''), opt_member arg (js ''message''))"
  from \<open>arg \<noteq> JUndefined \<and> arg \<noteq> JNull\<close> destructure_cases [of arg]
  have d: "destructure arg = Inr ?fields" by blast
  show "\<exists>r. fst (sendContactMessage base net arg) = Inr r
         \<and> (ok r \<longleftrightarrow> (\<exists>s resp. base = Some s \<and> s \<noteq> []
                \<and> net (contact_url s) ?fields = Fulfilled resp
                \<and> 200 \<le> resp_status resp \<and> resp_status resp \<le> 299))
         \<and> (\<not> ok r \<longrightarrow> error r \<noteq> None)
         \<and> (base = None \<or> base = Some [] \<longrightarrow>
              sendContactMessage base net arg
                = (Inr \<lparr>ok = False, error = Some config_error, data = None\<rparr>, []))"
  proof (cases "or_else base [] = []")
    case True
    then have b: "base = None \<or> base = Some []"
      by (auto simp: or_else_def split: option.splits if_splits)
    from True have "sendContactMessage base net arg
        = (Inr \<lparr>ok = False, error = Some config_error, data = None\<rparr>, [])"
      by (simp add: sendContactMessage_def d)
    with b show ?thesis by auto
  next
    case False
    then obtain s where s: "base = Some s" "s \<noteq> []" "or_else base [] = s"
      by (auto simp: or_else_def split: option.splits if_splits)
    let ?outc = "net (contact_url s) ?fields"
    show ?thesis
    proof (cases "try_block ?outc")
      case (Inl err)
      then have "fst (sendContactMessage base net arg) = Inr (catch_block err)"
        using s by (simp add: sendContactMessage_def Let_def d)
      with try_block_throws [OF Inl] catch_block_not_ok [of err] s show ?thesis by auto
    next
      case (Inr r)
      then have "fst (sendContactMessage base net arg) = Inr r"
        using s by (simp add: sendContactMessage_def Let_def d)
      with try_block_ok [OF Inr] s show ?thesis by auto
    qed
  qed
qed

text \<open>
  The theorem with no base URL, and with a server that answers 500 with a JSON body
  whose \<open>error\<close> is an object that \<open>String\<close> cannot render.
\<close>

theorem sendContactMessage_never_throws_witness:
  "sendContactMessage None offline (JObj Map.empty)
     = (Inr \<lparr>ok = False, error = Some config_error, data = None\<rparr>, [])
   \<and> sendContactMessage (Some (js ''http://localhost:3011/''))
       (\<lambda>url form. Fulfilled \<lparr>resp_status = 500, content_type = Some (js ''application/json''),
          json_result = Some (JObj [js ''error'' \<mapsto> JObj [js ''toString'' \<mapsto> JNull]]),
          text_result = None\<rparr>)
       (JObj Map.empty)
     = (Inr \<lparr>ok = False, error = Some (js ''Cannot convert object to primitive value''),
             data = None\<rparr>,
        [js ''http://localhost:3011/api/contact/''])"
proof -
  have o: "JObj Map.empty \<noteq> JUndefined \<and> JObj Map.empty \<noteq> JNull" by simp
  from sendContactMessage_never_throws [of "JObj Map.empty" None offline,
      THEN conjunct1, THEN mp, OF o]
  have first: "sendContactMessage None offline (JObj Map.empty)
     = (Inr \<lparr>ok = False, error = Some config_error, data = None\<rparr>, [])"
    by blast
  have u: "contact_url (js ''http://localhost:3011/'') = js ''http://localhost:3011/api/contact/''"
    by (simp add: contact_url_def slash_def js_def)
  have i: "js_includes (js ''application/json'') (js ''application/json'')"
    by (simp add: js_def)
  have b: "or_else (Some (js ''http://localhost:3011/'')) [] = js ''http://localhost:3011/''"
    by (simp add: or_else_def js_def)
  have n: "js ''http://localhost:3011/'' \<noteq> []" by (simp add: js_def)
  have second: "sendContactMessage (Some (js ''http://localhost:3011/''))
       (\<lambda>url form. Fulfilled \<lparr>resp_status = 500, content_type = Some (js ''application/json''),
          json_result = Some (JObj [js ''error'' \<mapsto> JObj [js ''toString'' \<mapsto> JNull]]),
          text_result = None\<rparr>)
       (JObj Map.empty)
     = (Inr \<lparr>ok = False, error = Some (js ''Cannot convert object to primitive value''),
             data = None\<rparr>,
        [js ''http://localhost:3011/api/contact/''])"
    unfolding sendContactMessage_def Let_def b u
    by (simp add: try_block_def read_data_def failure_message_def js_or_def get_prop_def
        conversion_error_def or_else_def i n)
      (simp add: js_def)
  from first second show ?thesis by simp
qed

text \<open>
  C10 as stated fails: the parameter is destructured before the \<open>try\<close> block, so a
  call with no argument (or \<open>undefined\<close>, or \<open>null\<close>) rejects with a TypeError and
  returns no object.
\<close>

theorem sendContactMessage_never_throws_counterexample:
  "sendContactMessage None offline JUndefined = (Inl destructure_error, [])
   \<and> sendContactMessage (Some (js ''http://localhost:3011'')) offline JNull
     = (Inl destructure_error, [])"
  by (simp add: sendContactMessage_def)


end
